theory Spec2Isabelle
  imports Main "HOL-Library.Word"
begin

unbundle bit_operations_syntax

section \<open>Data model\<close>

subsection \<open>Names, attributes and tokens of encoding/xml\<close>

text \<open>
  \<^verbatim>\<open>xml.Name{Space, Local}\<close>, \<^verbatim>\<open>xml.Attr{Name, Value}\<close> and the tokens that
  \<^verbatim>\<open>xml.Decoder.Token\<close> hands out. The tokenizer itself belongs to the Go standard
  library; a parser is the list of tokens it will still return, followed for ever by one
  error (\<^verbatim>\<open>io.EOF\<close> at the end of a complete input, a syntax error otherwise).
\<close>

record xml_Name =
  Space :: string
  Local :: string

record xml_Attr =
  attr_Name :: xml_Name
  attr_Value :: string

datatype Token =
    StartElement xml_Name "xml_Attr list"
  | EndElement xml_Name
  | CharData string
  | Comment string
  | ProcInst string string
  | Directive string

subsection \<open>Types and values as package reflect shows them\<close>

datatype isize = I0 | I8 | I16 | I32 | I64
datatype usize = U0 | U8 | U16 | U32 | U64 | Uptr
datatype fsize = F32 | F64
datatype csize = C64 | C128

text \<open>\<^verbatim>\<open>reflect.Kind\<close>; the integer, unsigned and float kinds carry their width.\<close>

datatype kind =
    KInvalid | KBool | KInt isize | KUint usize | KFloat fsize | KComplex csize
  | KArray | KChan | KFunc | KInterface | KMap | KPtr | KSlice | KString | KStruct
  | KUnsafePointer

text \<open>
  \<^verbatim>\<open>reflect.Type\<close> as a finite tree. A struct type carries its name and its fields
  (\<^verbatim>\<open>reflect.StructField\<close>: Name, PkgPath, Anonymous, the value of the \<^verbatim>\<open>xml\<close> key of
  its tag, Type). \<open>TTime\<close> is \<^verbatim>\<open>time.Time\<close>, a struct type whose three fields are all
  unexported. Recursive type declarations and named non-struct types are outside this
  model.
\<close>

datatype gtype =
    TBool | TInt isize | TUint usize | TFloat fsize | TComplex csize | TString
  | TUnsafePointer
  | TArray nat gtype
  | TSlice gtype
  | TPtr gtype
  | TMap gtype gtype
  | TChan gtype
  | TFunc
  | TInterface string
  | TStruct string "StructField list"
  | TTime
and StructField =
    StructField (sf_Name: string) (sf_PkgPath: string) (sf_Anonymous: bool)
      (sf_Tag: string) (sf_Type: gtype)

type_synonym float64 = "64 word"  \<comment> \<open>the IEEE-754 bit pattern\<close>
type_synonym Time = int           \<comment> \<open>an instant; the zero \<^verbatim>\<open>time.Time\<close> is 0\<close>

text \<open>
  \<^verbatim>\<open>reflect.Value\<close>. \<open>VInvalid\<close> is the zero Value. A slice is its element type, the
  contents of its backing array from the slice's start (so the capacity is the length of
  that list) and its length; an array carries its element type, a struct value the name
  and fields of its type, a pointer its pointee type, an interface value the name of its
  interface type and its dynamic value. Values are trees: two pointers never share a pointee, and a
  slice shares its backing array with no other slice.
\<close>

datatype gval =
    VInvalid
  | VBool bool
  | VInt isize int
  | VUint usize nat
  | VFloat fsize float64
  | VComplex csize
  | VString string
  | VUnsafePointer
  | VArray gtype "gval list"
  | VSlice gtype "gval list" nat
  | VStruct string "StructField list" "gval list"
  | VPtr gtype "gval option"
  | VIface string "gval option"
  | VMap gtype gtype "(gval \<times> gval) list"
  | VChan gtype
  | VFunc
  | VTime Time

subsection \<open>Errors\<close>

text \<open>
  Every error value and every panic the code can end in. \<open>LibError\<close> is an error returned
  by strconv or time; \<open>GoPanic\<close> is a panic (of the code or of package reflect), which
  unwinds the call instead of being returned.
\<close>

datatype error =
    EOF
  | SyntaxError string
  | UnsupportedTypeError gtype
  | NonPointer
  | LibError string
  | GoPanic string

fun is_panic :: "error \<Rightarrow> bool" where
  "is_panic (GoPanic _) = True"
| "is_panic _ = False"

subsection \<open>The part of package reflect the code uses\<close>

fun Kind :: "gtype \<Rightarrow> kind" where
  "Kind TBool = KBool"
| "Kind (TInt s) = KInt s"
| "Kind (TUint s) = KUint s"
| "Kind (TFloat s) = KFloat s"
| "Kind (TComplex s) = KComplex s"
| "Kind TString = KString"
| "Kind TUnsafePointer = KUnsafePointer"
| "Kind (TArray n t) = KArray"
| "Kind (TSlice t) = KSlice"
| "Kind (TPtr t) = KPtr"
| "Kind (TMap k v) = KMap"
| "Kind (TChan t) = KChan"
| "Kind TFunc = KFunc"
| "Kind (TInterface n) = KInterface"
| "Kind (TStruct n fs) = KStruct"
| "Kind TTime = KStruct"

text \<open>\<^verbatim>\<open>Type.Name()\<close>: the name of a defined type, empty for a composite type literal.\<close>

fun TypeName :: "gtype \<Rightarrow> string" where
  "TypeName TBool = ''bool''"
| "TypeName (TInt I0) = ''int''"
| "TypeName (TInt I8) = ''int8''"
| "TypeName (TInt I16) = ''int16''"
| "TypeName (TInt I32) = ''int32''"
| "TypeName (TInt I64) = ''int64''"
| "TypeName (TUint U0) = ''uint''"
| "TypeName (TUint U8) = ''uint8''"
| "TypeName (TUint U16) = ''uint16''"
| "TypeName (TUint U32) = ''uint32''"
| "TypeName (TUint U64) = ''uint64''"
| "TypeName (TUint Uptr) = ''uintptr''"
| "TypeName (TFloat F32) = ''float32''"
| "TypeName (TFloat F64) = ''float64''"
| "TypeName (TComplex C64) = ''complex64''"
| "TypeName (TComplex C128) = ''complex128''"
| "TypeName TString = ''string''"
| "TypeName TUnsafePointer = ''Pointer''"
| "TypeName (TInterface n) = n"
| "TypeName (TStruct n fs) = n"
| "TypeName TTime = ''Time''"
| "TypeName _ = []"

text \<open>
  \<^verbatim>\<open>Type.Elem()\<close> panics unless the kind is Array, Chan, Map, Pointer or Slice; in
  particular it panics on an interface type.
\<close>

fun ElemT :: "gtype \<Rightarrow> error + gtype" where
  "ElemT (TArray n t) = Inr t"
| "ElemT (TChan t) = Inr t"
| "ElemT (TMap k v) = Inr v"
| "ElemT (TPtr t) = Inr t"
| "ElemT (TSlice t) = Inr t"
| "ElemT _ = Inl (GoPanic ''reflect: Elem of invalid type'')"

text \<open>\<^verbatim>\<open>Type.NumField()\<close> and \<^verbatim>\<open>Type.Field(i)\<close> of a struct type, as one list.\<close>

fun StructFields :: "gtype \<Rightarrow> StructField list" where
  "StructFields (TStruct n fs) = fs"
| "StructFields TTime =
     [StructField ''wall'' ''time'' False [] (TUint U64),
      StructField ''ext'' ''time'' False [] (TInt I64),
      StructField ''loc'' ''time'' False [] (TPtr (TStruct ''Location'' []))]"
| "StructFields _ = []"

text \<open>\<^verbatim>\<open>Value.Type()\<close>: \<open>None\<close> is the panic on the zero Value.\<close>

fun TypeOf :: "gval \<Rightarrow> gtype option" where
  "TypeOf VInvalid = None"
| "TypeOf (VBool b) = Some TBool"
| "TypeOf (VInt s i) = Some (TInt s)"
| "TypeOf (VUint s n) = Some (TUint s)"
| "TypeOf (VFloat s f) = Some (TFloat s)"
| "TypeOf (VComplex s) = Some (TComplex s)"
| "TypeOf (VString s) = Some TString"
| "TypeOf VUnsafePointer = Some TUnsafePointer"
| "TypeOf (VArray t vs) = Some (TArray (length vs) t)"
| "TypeOf (VSlice t vs n) = Some (TSlice t)"
| "TypeOf (VStruct n fs vs) = Some (TStruct n fs)"
| "TypeOf (VPtr t p) = Some (TPtr t)"
| "TypeOf (VIface n d) = Some (TInterface n)"
| "TypeOf (VMap k v es) = Some (TMap k v)"
| "TypeOf (VChan t) = Some (TChan t)"
| "TypeOf VFunc = Some TFunc"
| "TypeOf (VTime t) = Some TTime"

definition KindV :: "gval \<Rightarrow> kind" where
  "KindV v = (case TypeOf v of None \<Rightarrow> KInvalid | Some t \<Rightarrow> Kind t)"

definition IsValid :: "gval \<Rightarrow> bool" where
  "IsValid v = (v \<noteq> VInvalid)"

text \<open>
  \<^verbatim>\<open>reflect.ValueOf(v)\<close> for an argument of type \<^verbatim>\<open>interface{}\<close>: the dynamic value, the
  zero Value for nil; the result never has kind Interface.
\<close>

fun ValueOf :: "gval \<Rightarrow> gval" where
  "ValueOf (VIface n None) = VInvalid"
| "ValueOf (VIface n (Some v)) = ValueOf v"
| "ValueOf v = v"

text \<open>\<^verbatim>\<open>Value.IsNil()\<close>, used by the code on pointers and interfaces only.\<close>

fun IsNil :: "gval \<Rightarrow> bool" where
  "IsNil (VPtr t None) = True"
| "IsNil (VIface n None) = True"
| "IsNil _ = False"

text \<open>
  \<^verbatim>\<open>Value.Elem()\<close>: the pointee or the dynamic value, the zero Value for nil, a panic on
  every other kind.
\<close>

fun Elem :: "gval \<Rightarrow> error + gval" where
  "Elem (VPtr t None) = Inr VInvalid"
| "Elem (VPtr t (Some v)) = Inr v"
| "Elem (VIface n None) = Inr VInvalid"
| "Elem (VIface n (Some v)) = Inr v"
| "Elem _ = Inl (GoPanic ''reflect: call of reflect.Value.Elem on a value that is no pointer or interface'')"

text \<open>\<^verbatim>\<open>Value.Field(i)\<close>: a panic on a value that is no struct or has no field \<open>i\<close>.\<close>

fun Field :: "gval \<Rightarrow> nat \<Rightarrow> error + gval" where
  "Field (VStruct n fs vs) i =
     (if i < length vs then Inr (vs ! i)
      else Inl (GoPanic ''reflect: Field index out of range''))"
| "Field _ i = Inl (GoPanic ''reflect: call of reflect.Value.Field on a value that is no struct'')"

text \<open>The elements \<^verbatim>\<open>Index(0)\<close> ... \<^verbatim>\<open>Index(Len()-1)\<close> of a slice or an array.\<close>

fun items :: "gval \<Rightarrow> gval list" where
  "items (VArray t vs) = vs"
| "items (VSlice t vs n) = take n vs"
| "items _ = []"

text \<open>\<^verbatim>\<open>Value.Len()\<close> on the kinds the emptiness rule asks it of.\<close>

fun Len :: "gval \<Rightarrow> nat" where
  "Len (VArray t vs) = length vs"
| "Len (VSlice t vs n) = n"
| "Len (VMap k v es) = length es"
| "Len (VString s) = length s"
| "Len _ = 0"

text \<open>
  The zero value of a type (\<^verbatim>\<open>reflect.New(t).Elem()\<close>, the elements of
  \<^verbatim>\<open>reflect.MakeSlice\<close>).
\<close>

fun zero :: "gtype \<Rightarrow> gval" and zeroField :: "StructField \<Rightarrow> gval" where
  "zero TBool = VBool False"
| "zero (TInt s) = VInt s 0"
| "zero (TUint s) = VUint s 0"
| "zero (TFloat s) = VFloat s 0"
| "zero (TComplex s) = VComplex s"
| "zero TString = VString []"
| "zero TUnsafePointer = VUnsafePointer"
| "zero (TArray n t) = VArray t (replicate n (zero t))"
| "zero (TSlice t) = VSlice t [] 0"
| "zero (TPtr t) = VPtr t None"
| "zero (TMap k v) = VMap k v []"
| "zero (TChan t) = VChan t"
| "zero TFunc = VFunc"
| "zero (TInterface n) = VIface n None"
| "zero (TStruct n fs) = VStruct n fs (map zeroField fs)"
| "zero TTime = VTime 0"
| "zeroField (StructField n p a tg t) = zero t"

subsection \<open>The registry and the namespace table\<close>

type_synonym fieldFlags = int

definition fElement :: fieldFlags where "fElement = 1"
definition fAttr :: fieldFlags where "fAttr = 2"
definition fInterface :: fieldFlags where "fInterface = 4"
definition fOmitEmpty :: fieldFlags where "fOmitEmpty = 8"

record fieldInfo =
  fi_index :: nat
  fi_name :: xml_Name
  fi_flags :: fieldFlags

record typeInfo =
  ti_name :: xml_Name
  ti_attrs :: "xml_Attr list"
  ti_fields :: "fieldInfo list"

text \<open>
  \<^verbatim>\<open>XmlUtil\<close>: the type map is an association list with one entry per key, in order of
  first insertion; the two namespace maps are partial functions. The locks are left out:
  the model is sequential.
\<close>

record XmlUtil =
  typeMap :: "(gtype \<times> typeInfo) list"
  nsPrefixMap :: "string \<rightharpoonup> string"
  nsUriMap :: "string \<rightharpoonup> string"

definition NewXmlUtil :: XmlUtil where
  "NewXmlUtil =
     \<lparr> typeMap = [],
       nsPrefixMap = [''xmlns'' \<mapsto> ''xmlns''],
       nsUriMap = [''xmlns'' \<mapsto> ''xmlns''] \<rparr>"

definition RegisterNamespace :: "XmlUtil \<Rightarrow> string \<Rightarrow> string \<Rightarrow> XmlUtil" where
  "RegisterNamespace x uri prefix =
     x\<lparr> nsPrefixMap := (nsPrefixMap x)(uri \<mapsto> prefix),
        nsUriMap := (nsUriMap x)(prefix \<mapsto> uri) \<rparr>"

text \<open>Reading a Go map at a missing key gives the zero value, here the empty string.\<close>

definition lookupPrefix :: "XmlUtil \<Rightarrow> string \<Rightarrow> string" where
  "lookupPrefix x uri = (case nsPrefixMap x uri of None \<Rightarrow> [] | Some p \<Rightarrow> p)"

definition lookupNamespaceUri :: "XmlUtil \<Rightarrow> string \<Rightarrow> string" where
  "lookupNamespaceUri x prefix = (case nsUriMap x prefix of None \<Rightarrow> [] | Some u \<Rightarrow> u)"

text \<open>A sequence of \<^verbatim>\<open>RegisterNamespace(uri, prefix)\<close> calls, oldest first.\<close>

fun registerAll :: "XmlUtil \<Rightarrow> (string \<times> string) list \<Rightarrow> XmlUtil" where
  "registerAll x [] = x"
| "registerAll x ((uri, prefix) # calls) = registerAll (RegisterNamespace x uri prefix) calls"

text \<open>A call keeps the reserved pair when it binds \<open>xmlns\<close> on neither side, or on both.\<close>

definition keeps_xmlns :: "string \<times> string \<Rightarrow> bool" where
  "keeps_xmlns c = ((fst c = ''xmlns'') = (snd c = ''xmlns''))"

subsection \<open>Type registry\<close>

text \<open>Assignment \<^verbatim>\<open>m[k] = v\<close> to a Go map: the entry of \<open>k\<close> is replaced or a new one added.\<close>

fun mapSet :: "'k \<Rightarrow> 'v \<Rightarrow> ('k \<times> 'v) list \<Rightarrow> ('k \<times> 'v) list" where
  "mapSet k v [] = [(k, v)]"
| "mapSet k v ((k', v') # m) = (if k' = k then (k, v) # m else (k', v') # mapSet k v m)"

text \<open>\<^verbatim>\<open>strings.Split(s, ",")\<close> for a one-byte separator, and the two sides of the first colon.\<close>

fun Split :: "char \<Rightarrow> string \<Rightarrow> string list" where
  "Split sep [] = [[]]"
| "Split sep (c # cs) =
     (if c = sep then [] # Split sep cs
      else (case Split sep cs of [] \<Rightarrow> [[c]] | w # ws \<Rightarrow> (c # w) # ws))"

definition beforeColon :: "string \<Rightarrow> string" where
  "beforeColon tag = takeWhile (\<lambda>c. c \<noteq> CHR '':'') tag"

definition afterColon :: "string \<Rightarrow> string" where
  "afterColon tag = tl (dropWhile (\<lambda>c. c \<noteq> CHR '':'') tag)"

text \<open>The flag loop of \<^verbatim>\<open>getFields\<close> over \<^verbatim>\<open>tokens[1:]\<close>.\<close>

fun tagFlags :: "fieldFlags \<Rightarrow> string list \<Rightarrow> fieldFlags" where
  "tagFlags fl [] = fl"
| "tagFlags fl (flag # flags) =
     tagFlags (if flag = ''attr'' then fl OR fAttr
               else if flag = ''omitempty'' then fl OR fOmitEmpty
               else fl) flags"

text \<open>
  \<^verbatim>\<open>getFields\<close>, from field \<open>i\<close> on. The test \<^verbatim>\<open>f.Name[0] > 'Z'\<close> reads the first byte
  of a field name; reflect never reports an empty field name.
\<close>

fun getFieldsFrom :: "XmlUtil \<Rightarrow> nat \<Rightarrow> StructField list \<Rightarrow> fieldInfo list" where
  "getFieldsFrom x i [] = []"
| "getFieldsFrom x i (f # fs) =
     (if sf_PkgPath f \<noteq> [] then getFieldsFrom x (Suc i) fs
      else if sf_Anonymous f \<and>
              (case sf_Name f of [] \<Rightarrow> False | c # _ \<Rightarrow> (of_char c :: nat) > of_char CHR ''Z'')
           then getFieldsFrom x (Suc i) fs
      else
        (let tokens = Split CHR '','' (sf_Tag f);
             tag = hd tokens;
             nm = (if CHR '':'' \<in> set tag
                   then \<lparr> Space = lookupNamespaceUri x (beforeColon tag), Local = afterColon tag \<rparr>
                   else \<lparr> Space = [], Local = tag \<rparr>);
             nm' = (if Local nm = [] then nm\<lparr> Local := sf_Name f \<rparr> else nm);
             fl = tagFlags 0 (tl tokens);
             typ = (if Kind (sf_Type f) = KSlice
                    then (case ElemT (sf_Type f) of Inr t \<Rightarrow> t | Inl _ \<Rightarrow> sf_Type f)
                    else sf_Type f);
             fl' = (if Kind typ = KInterface then fl OR fInterface else fl)
         in \<lparr> fi_index = i, fi_name = nm', fi_flags = fl' \<rparr> # getFieldsFrom x (Suc i) fs))"

definition getFields :: "XmlUtil \<Rightarrow> gtype \<Rightarrow> fieldInfo list" where
  "getFields x typ = getFieldsFrom x 0 (StructFields typ)"

text \<open>
  \<^verbatim>\<open>registerType\<close> follows pointers to the underlying type; on an interface type its call
  of \<^verbatim>\<open>typ.Elem()\<close> panics. The returned error is always nil, so the only failure is that
  panic.
\<close>

fun registerType ::
  "XmlUtil \<Rightarrow> gtype \<Rightarrow> xml_Name \<Rightarrow> xml_Attr list \<Rightarrow> error + (typeInfo \<times> XmlUtil)" where
  "registerType x (TPtr t) name attrs = registerType x t name attrs"
| "registerType x (TInterface n) name attrs = Inl (GoPanic ''reflect: Elem of invalid type'')"
| "registerType x typ name attrs =
     (let name' = (if Local name = [] then name\<lparr> Local := TypeName typ \<rparr> else name);
          ti = \<lparr> ti_name = name', ti_attrs = attrs,
                 ti_fields = (if Kind typ = KStruct then getFields x typ else []) \<rparr>
      in Inr (ti, x\<lparr> typeMap := mapSet typ ti (typeMap x) \<rparr>))"

fun getTypeInfo :: "XmlUtil \<Rightarrow> gtype \<Rightarrow> error + (typeInfo \<times> XmlUtil)" where
  "getTypeInfo x (TPtr t) = getTypeInfo x t"
| "getTypeInfo x (TInterface n) = Inl (GoPanic ''reflect: Elem of invalid type'')"
| "getTypeInfo x typ =
     (case map_of (typeMap x) typ of
        Some ti \<Rightarrow> Inr (ti, x)
      | None \<Rightarrow> registerType x typ \<lparr> Space = [], Local = [] \<rparr> [])"

text \<open>
  \<^verbatim>\<open>getTypeByName\<close> ranges over the Go map, whose iteration order is not fixed; the model
  takes the first match in insertion order. \<open>None\<close> is the nil Type.
\<close>

definition getTypeByName :: "XmlUtil \<Rightarrow> xml_Name \<Rightarrow> gtype option" where
  "getTypeByName x name =
     map_option fst (find (\<lambda>e. ti_name (snd e) = name) (typeMap x))"

text \<open>
  \<^verbatim>\<open>RegisterTypeMore\<close>: the argument is the \<^verbatim>\<open>interface{}\<close> value; for a nil interface
  \<^verbatim>\<open>reflect.TypeOf\<close> is nil, the lookup misses and \<^verbatim>\<open>typ.Kind()\<close> in \<^verbatim>\<open>registerType\<close>
  dereferences nil.
\<close>

definition RegisterTypeMore ::
  "XmlUtil \<Rightarrow> gval \<Rightarrow> xml_Name \<Rightarrow> xml_Attr list \<Rightarrow> error + XmlUtil" where
  "RegisterTypeMore x value name attrs =
     (case TypeOf (ValueOf value) of
        None \<Rightarrow> Inl (GoPanic ''invalid memory address or nil pointer dereference'')
      | Some typ \<Rightarrow>
          (if map_of (typeMap x) typ \<noteq> None
           then Inl (GoPanic (''xmlutil: '' @ TypeName typ @ '' already registered''))
           else (case registerType x typ name attrs of
                   Inl e \<Rightarrow> Inl e
                 | Inr (ti, x') \<Rightarrow> Inr x')))"

definition RegisterType :: "XmlUtil \<Rightarrow> gval \<Rightarrow> error + XmlUtil" where
  "RegisterType x value = RegisterTypeMore x value \<lparr> Space = [], Local = [] \<rparr> []"

section \<open>Encoder\<close>

text \<open>
  The functions of strconv, time, strings and encoding/xml that the code calls stand
  outside the repository. They are a parameter of the model, and every theorem below holds
  for whatever they compute: \<open>FormatInt\<close>, \<open>FormatUint\<close> in base 10, \<open>FormatFloat\<close>
  with format \<^verbatim>\<open>'g'\<close>, precision -1 and 64 bits, \<open>FormatTime\<close> with layout RFC3339Nano,
  \<open>Escape\<close> for the bytes \<^verbatim>\<open>xml.Escape\<close> writes, \<open>ParseInt\<close> and \<open>ParseUint\<close> in base 10
  and 64 bits, \<open>ParseFloat\<close> in 64 bits, \<open>ParseTime\<close> with layout RFC3339, and
  \<open>ToFloat32\<close> for the conversion \<^verbatim>\<open>float32(x)\<close> that \<^verbatim>\<open>SetFloat\<close> makes on a
  \<^verbatim>\<open>float32\<close>. A parser returns its value or the message of its error.
\<close>

record stdlib =
  FormatInt :: "int \<Rightarrow> string"
  FormatUint :: "nat \<Rightarrow> string"
  FormatFloat :: "float64 \<Rightarrow> string"
  FormatBool :: "bool \<Rightarrow> string"
  FormatTime :: "Time \<Rightarrow> string"
  Escape :: "string \<Rightarrow> string"
  ParseInt :: "string \<Rightarrow> string + int"
  ParseUint :: "string \<Rightarrow> string + nat"
  ParseFloat :: "string \<Rightarrow> string + float64"
  ParseBool :: "string \<Rightarrow> string + bool"
  TrimSpace :: "string \<Rightarrow> string"
  ParseTime :: "string \<Rightarrow> string + Time"
  ToFloat32 :: "float64 \<Rightarrow> float64"

text \<open>
  \<^verbatim>\<open>bufio.Writer\<close> over the sink: bytes written wait in \<open>pending\<close> until a flush moves
  them to \<open>sink\<close>; \<open>flushes\<close> counts the calls of \<^verbatim>\<open>Flush\<close>. Write errors of the sink
  are not modelled, and neither is the write-through of a full buffer, which moves bytes
  from \<open>pending\<close> to \<open>sink\<close> early and leaves \<open>sink @ pending\<close> as it is.
\<close>

record Writer =
  sink :: string
  pending :: string
  flushes :: nat

definition WriteString :: "string \<Rightarrow> Writer \<Rightarrow> Writer" where
  "WriteString s w = w\<lparr> pending := pending w @ s \<rparr>"

definition WriteByte :: "char \<Rightarrow> Writer \<Rightarrow> Writer" where
  "WriteByte c w = w\<lparr> pending := pending w @ [c] \<rparr>"

definition Flush :: "Writer \<Rightarrow> Writer" where
  "Flush w = w\<lparr> sink := sink w @ pending w, pending := [], flushes := Suc (flushes w) \<rparr>"

record Encoder =
  xmlutil :: XmlUtil
  writer :: Writer

definition NewEncoder :: "XmlUtil \<Rightarrow> string \<Rightarrow> Encoder" where
  "NewEncoder x w = \<lparr> xmlutil = x, writer = \<lparr> sink = w, pending = [], flushes = 0 \<rparr> \<rparr>"

text \<open>The bytes of a byte array or byte slice; \<open>None\<close> when an element is no \<^verbatim>\<open>uint8\<close>.\<close>

fun bytesOf :: "gval list \<Rightarrow> string option" where
  "bytesOf [] = Some []"
| "bytesOf (VUint U8 n # vs) = map_option (\<lambda>bs. char_of n # bs) (bytesOf vs)"
| "bytesOf (_ # vs) = None"

text \<open>
  \<^verbatim>\<open>marshalText\<close>. The kinds are read off the value. On an array whose elements are no
  bytes the type assertion \<^verbatim>\<open>.(byte)\<close> panics, and so does \<^verbatim>\<open>Value.Bytes()\<close> on a slice of
  another element type; \<^verbatim>\<open>val.Type()\<close> panics on the zero Value.
\<close>

fun marshalText :: "stdlib \<Rightarrow> Writer \<Rightarrow> gval \<Rightarrow> error option \<times> Writer" where
  "marshalText L w VInvalid =
     (Some (GoPanic ''reflect: call of reflect.Value.Type on zero Value''), w)"
| "marshalText L w (VTime t) = (None, WriteString (FormatTime L t) w)"
| "marshalText L w (VInt s i) = (None, WriteString (FormatInt L i) w)"
| "marshalText L w (VUint s n) = (None, WriteString (FormatUint L n) w)"
| "marshalText L w (VFloat s f) = (None, WriteString (FormatFloat L f) w)"
| "marshalText L w (VString s) = (None, WriteString (Escape L s) w)"
| "marshalText L w (VBool b) = (None, WriteString (FormatBool L b) w)"
| "marshalText L w (VArray t vs) =
     (case bytesOf vs of
        None \<Rightarrow> (Some (GoPanic ''interface conversion: interface {} is not uint8''), w)
      | Some bs \<Rightarrow> (None, WriteString (Escape L bs) w))"
| "marshalText L w (VSlice t vs n) =
     (case (if Kind t = KUint U8 then bytesOf (take n vs) else None) of
        None \<Rightarrow> (Some (GoPanic ''reflect.Value.Bytes of non-byte slice''), w)
      | Some bs \<Rightarrow> (None, WriteString (Escape L bs) w))"
| "marshalText L w val =
     (case TypeOf val of
        None \<Rightarrow> (Some (GoPanic ''reflect: call of reflect.Value.Type on zero Value''), w)
      | Some typ \<Rightarrow> (Some (UnsupportedTypeError typ), w))"

fun isEmptyValue :: "gval \<Rightarrow> bool" where
  "isEmptyValue (VArray t vs) = (Len (VArray t vs) = 0)"
| "isEmptyValue (VMap k v es) = (Len (VMap k v es) = 0)"
| "isEmptyValue (VSlice t vs n) = (Len (VSlice t vs n) = 0)"
| "isEmptyValue (VString s) = (Len (VString s) = 0)"
| "isEmptyValue (VBool b) = (\<not> b)"
| "isEmptyValue (VInt s i) = (i = 0)"
| "isEmptyValue (VUint s n) = (n = 0)"
| "isEmptyValue (VFloat s f) = (f = 0 \<or> f = push_bit 63 1)"
| "isEmptyValue (VIface n d) = IsNil (VIface n d)"
| "isEmptyValue (VPtr t p) = IsNil (VPtr t p)"
| "isEmptyValue _ = False"

text \<open>The qualified tag of a name: \<^verbatim>\<open>prefix:local\<close> when the lookup gives a prefix.\<close>

definition attrTag :: "XmlUtil \<Rightarrow> xml_Name \<Rightarrow> string" where
  "attrTag x nm =
     (if lookupPrefix x (Space nm) \<noteq> [] then lookupPrefix x (Space nm) @ '':'' @ Local nm
      else Local nm)"

text \<open>
  \<^verbatim>\<open>marshalAttributes\<close>, first loop: the fields flagged \<^verbatim>\<open>fAttr\<close>. \<open>check\<close> is the set of
  names already written.
\<close>

fun marshalAttrFields ::
  "stdlib \<Rightarrow> XmlUtil \<Rightarrow> gval \<Rightarrow> fieldInfo list \<Rightarrow> xml_Name set \<Rightarrow> Writer
     \<Rightarrow> error option \<times> xml_Name set \<times> Writer" where
  "marshalAttrFields L x val [] check w = (None, check, w)"
| "marshalAttrFields L x val (fi # fis) check w =
     (if fi_flags fi AND fAttr = 0 then marshalAttrFields L x val fis check w
      else if fi_name fi \<in> check then marshalAttrFields L x val fis check w
      else
        (let check' = insert (fi_name fi) check;
             w1 = WriteByte CHR 0x22 (WriteByte CHR ''=''
                    (WriteString (attrTag x (fi_name fi)) (WriteByte CHR '' '' w)))
         in (case Field val (fi_index fi) of
               Inl p \<Rightarrow> (Some p, check', w1)
             | Inr fval \<Rightarrow>
                 (case marshalText L w1 fval of
                    (Some err, w2) \<Rightarrow> (Some err, check', w2)
                  | (None, w2) \<Rightarrow>
                      marshalAttrFields L x val fis check' (WriteByte CHR 0x22 w2)))))"

text \<open>Second loop: the fixed attributes of the descriptor.\<close>

fun marshalFixedAttrs ::
  "stdlib \<Rightarrow> XmlUtil \<Rightarrow> xml_Attr list \<Rightarrow> xml_Name set \<Rightarrow> Writer \<Rightarrow> Writer" where
  "marshalFixedAttrs L x [] check w = w"
| "marshalFixedAttrs L x (attr # as) check w =
     (if attr_Name attr \<in> check then marshalFixedAttrs L x as check w
      else marshalFixedAttrs L x as (insert (attr_Name attr) check)
             (WriteByte CHR 0x22 (WriteString (Escape L (attr_Value attr))
               (WriteByte CHR 0x22 (WriteByte CHR ''=''
                 (WriteString (attrTag x (attr_Name attr)) (WriteByte CHR '' '' w)))))))"

definition marshalAttributes ::
  "stdlib \<Rightarrow> XmlUtil \<Rightarrow> Writer \<Rightarrow> gval \<Rightarrow> typeInfo \<Rightarrow> error option \<times> Writer" where
  "marshalAttributes L x w val ti =
     (case marshalAttrFields L x val (ti_fields ti) {} w of
        (Some err, check, w1) \<Rightarrow> (Some err, w1)
      | (None, check, w1) \<Rightarrow> (None, marshalFixedAttrs L x (ti_attrs ti) check w1))"

text \<open>The tag of an element: \<^verbatim>\<open>name.Local\<close>, prefixed when the namespace has a prefix.\<close>

definition elemTag :: "XmlUtil \<Rightarrow> xml_Name \<Rightarrow> string" where
  "elemTag x nm =
     (if Space nm \<noteq> [] \<and> lookupPrefix x (Space nm) \<noteq> []
      then lookupPrefix x (Space nm) @ '':'' @ Local nm
      else Local nm)"

text \<open>\<^verbatim>\<open>typ.Elem().Kind()\<close> of a slice or array value.\<close>

definition elemKind :: "gval \<Rightarrow> kind" where
  "elemKind val =
     (case TypeOf val of
        None \<Rightarrow> KInvalid
      | Some typ \<Rightarrow> (case ElemT typ of Inl _ \<Rightarrow> KInvalid | Inr t \<Rightarrow> Kind t))"

lemma size_take_le: "size_list f (take n xs) \<le> size_list f xs"
proof (induction xs arbitrary: n)
  case Nil
  then show ?case by simp
next
  case (Cons x xs)
  then show ?case by (cases n) (simp_all add: le_SucI)
qed

lemma size_items_less:
  "KindV val = KSlice \<or> KindV val = KArray \<Longrightarrow> size_list size (items val) < size val"
proof (cases val)
  case (VSlice t vs n)
  have "size_list size (take n vs) \<le> size_list size vs" by (rule size_take_le)
  then show ?thesis using VSlice by simp
qed (simp_all add: KindV_def)

lemma size_Elem_less: "Elem val = Inr v \<Longrightarrow> \<not> IsNil val \<Longrightarrow> size v < size val"
  by (induction val rule: Elem.induct) auto

lemma size_nth_less: "i < length vs \<Longrightarrow> size (vs ! i) < Suc (size_list size vs)"
proof (induction vs arbitrary: i)
  case Nil
  then show ?case by simp
next
  case (Cons v vs)
  show ?case
  proof (cases i)
    case 0
    then show ?thesis by simp
  next
    case (Suc j)
    with Cons.prems have "j < length vs" by simp
    from Cons.IH [OF this] show ?thesis using Suc by simp
  qed
qed

lemma size_Field_less: "Field val i = Inr fval \<Longrightarrow> size fval < size val"
proof (cases val)
  case (VStruct n fs vs)
  assume "Field val i = Inr fval"
  with VStruct have "i < length vs" and "fval = vs ! i" by (auto split: if_splits)
  with size_nth_less [of i vs] VStruct show ?thesis by simp
qed simp_all

text \<open>
  \<^verbatim>\<open>marshalValue\<close>, the loop over the items of a sequence, and \<^verbatim>\<open>marshalFields\<close> as the
  loop over the remaining field descriptors. An ordinary error of \<^verbatim>\<open>marshalAttributes\<close>
  makes \<^verbatim>\<open>marshalValue\<close> return nil (line 88 of encoder.go); a panic is not caught by
  that test and unwinds.
\<close>

function (sequential)
  marshalValue :: "stdlib \<Rightarrow> Encoder \<Rightarrow> gval \<Rightarrow> xml_Name option \<Rightarrow> error option \<times> Encoder"
  and marshalItems ::
    "stdlib \<Rightarrow> Encoder \<Rightarrow> gval list \<Rightarrow> xml_Name option \<Rightarrow> error option \<times> Encoder"
  and marshalFields ::
    "stdlib \<Rightarrow> Encoder \<Rightarrow> gval \<Rightarrow> fieldInfo list \<Rightarrow> error option \<times> Encoder"
where
  "marshalValue L e val name =
     (if \<not> IsValid val then (None, e)
      else if KindV val = KPtr \<or> KindV val = KInterface then
        (if IsNil val then (None, e)
         else (case Elem val of
                 Inl p \<Rightarrow> (Some p, e)
               | Inr v \<Rightarrow> marshalValue L e v name))
      else if (KindV val = KSlice \<or> KindV val = KArray) \<and> elemKind val \<noteq> KUint U8 then
        marshalItems L e (items val) name
      else
        \<comment> \<open>\<open>val\<close> is valid here, so \<open>TypeOf val\<close> is its type\<close>
        (case getTypeInfo (xmlutil e) (the (TypeOf val)) of
           Inl err \<Rightarrow> (Some err, e)
         | Inr (ti, x') \<Rightarrow>
             (let tag = elemTag x' (case name of None \<Rightarrow> ti_name ti | Some n \<Rightarrow> n);
                  w1 = WriteString tag (WriteByte CHR ''<'' (writer e))
              in (case marshalAttributes L x' w1 val ti of
                    (Some err, w2) \<Rightarrow>
                      (if is_panic err then Some err else None, \<lparr> xmlutil = x', writer = w2 \<rparr>)
                  | (None, w2) \<Rightarrow>
                      (case (if KindV val = KStruct
                             then marshalFields L
                                    \<lparr> xmlutil = x', writer = WriteByte CHR ''>'' w2 \<rparr>
                                    val (ti_fields ti)
                             else (case marshalText L (WriteByte CHR ''>'' w2) val of
                                     (r, w3) \<Rightarrow> (r, \<lparr> xmlutil = x', writer = w3 \<rparr>))) of
                         (Some err, e3) \<Rightarrow> (Some err, e3)
                       | (None, e3) \<Rightarrow>
                           (None, e3\<lparr> writer :=
                              WriteByte CHR ''>'' (WriteString tag
                                (WriteByte CHR ''/'' (WriteByte CHR ''<'' (writer e3)))) \<rparr>))))))"
| "marshalItems L e [] name = (None, e)"
| "marshalItems L e (v # vs) name =
     (case marshalValue L e v name of
        (Some err, e') \<Rightarrow> (Some err, e')
      | (None, e') \<Rightarrow> marshalItems L e' vs name)"
| "marshalFields L e val [] = (None, e)"
| "marshalFields L e val (fi # fis) =
     (if fi_flags fi AND fAttr \<noteq> 0 then marshalFields L e val fis
      else
        (case Field val (fi_index fi) of
           Inl p \<Rightarrow> (Some p, e)
         | Inr fval \<Rightarrow>
             (if fi_flags fi AND fOmitEmpty \<noteq> 0 \<and> isEmptyValue fval
              then marshalFields L e val fis
              else if fi_flags fi AND fInterface \<noteq> 0 then
                (case Elem fval of
                   Inl p \<Rightarrow> (Some p, e)
                 | Inr dyn \<Rightarrow>
                     (case TypeOf dyn of
                        None \<Rightarrow>
                          (Some (GoPanic ''reflect: call of reflect.Value.Type on zero Value''), e)
                      | Some t \<Rightarrow>
                          (case getTypeInfo (xmlutil e) t of
                             Inl err \<Rightarrow> (Some err, e)
                           | Inr (rti, x') \<Rightarrow>
                               (case marshalValue L (e\<lparr> xmlutil := x' \<rparr>) fval
                                       (Some (ti_name rti)) of
                                  (Some err, e') \<Rightarrow> (Some err, e')
                                | (None, e') \<Rightarrow> marshalFields L e' val fis))))
              else
                (case marshalValue L e fval (Some (fi_name fi)) of
                   (Some err, e') \<Rightarrow> (Some err, e')
                 | (None, e') \<Rightarrow> marshalFields L e' val fis))))"
  by pat_completeness auto
termination
  apply (relation "measures
    [\<lambda>a. case a of
       Inl (L, e, val, name) \<Rightarrow> 2 * size val + 1
     | Inr (Inl (L, e, vs, name)) \<Rightarrow> 2 * size_list size vs
     | Inr (Inr (L, e, val, fis)) \<Rightarrow> 2 * size val,
     \<lambda>a. case a of
       Inl (L, e, val, name) \<Rightarrow> 0
     | Inr (Inl (L, e, vs, name)) \<Rightarrow> length vs
     | Inr (Inr (L, e, val, fis)) \<Rightarrow> length fis]")
  apply simp
  subgoal for L e val name v using size_Elem_less [of val v] by simp
  subgoal for L e val name using size_items_less [of val] by simp
  apply simp
  apply simp
  apply simp
  apply simp
  apply simp
  subgoal for L e val fi fis fval using size_Field_less [of val "fi_index fi" fval] by simp
  apply simp
  subgoal for L e val fi fis fval using size_Field_less [of val "fi_index fi" fval] by simp
  apply simp
  done

declare marshalValue.simps [simp del]

text \<open>
  \<^verbatim>\<open>Encode\<close>: the flush follows the return of \<^verbatim>\<open>marshalValue\<close>; a panic skips it.
\<close>

definition Encode :: "stdlib \<Rightarrow> Encoder \<Rightarrow> gval \<Rightarrow> error option \<times> Encoder" where
  "Encode L e v =
     (case marshalValue L e (ValueOf v) None of
        (Some err, e') \<Rightarrow>
          (if is_panic err then (Some err, e')
           else (Some err, e'\<lparr> writer := Flush (writer e') \<rparr>))
      | (None, e') \<Rightarrow> (None, e'\<lparr> writer := Flush (writer e') \<rparr>))"

section \<open>Decoder\<close>

text \<open>
  A decoder is the registry it is bound to and its parser: the tokens still to come and
  the error \<^verbatim>\<open>Token()\<close> returns from then on. Once \<^verbatim>\<open>Token()\<close> has returned an error
  the tokens are used up.
\<close>

record Decoder =
  dec_xmlutil :: XmlUtil
  toks :: "Token list"
  final :: error

definition NewDecoder :: "XmlUtil \<Rightarrow> Token list \<Rightarrow> error \<Rightarrow> Decoder" where
  "NewDecoder x ts fin = \<lparr> dec_xmlutil = x, toks = ts, final = fin \<rparr>"

type_synonym StartElem = "xml_Name \<times> xml_Attr list"

text \<open>
  The width of an integer kind; \<^verbatim>\<open>int\<close>, \<^verbatim>\<open>uint\<close> and \<^verbatim>\<open>uintptr\<close> are taken as 64 bits.
  \<^verbatim>\<open>SetInt\<close> and \<^verbatim>\<open>SetUint\<close> convert the 64-bit value to the kind of the destination.
\<close>

fun ibits :: "isize \<Rightarrow> nat" where
  "ibits I8 = 8" | "ibits I16 = 16" | "ibits I32 = 32" | "ibits I64 = 64" | "ibits I0 = 64"

fun ubits :: "usize \<Rightarrow> nat" where
  "ubits U8 = 8" | "ubits U16 = 16" | "ubits U32 = 32" | "ubits U64 = 64" | "ubits U0 = 64"
| "ubits Uptr = 64"

definition SetInt :: "isize \<Rightarrow> int \<Rightarrow> gval" where
  "SetInt s v = VInt s ((v + 2 ^ (ibits s - 1)) mod 2 ^ ibits s - 2 ^ (ibits s - 1))"

definition SetUint :: "usize \<Rightarrow> nat \<Rightarrow> gval" where
  "SetUint s v = VUint s (v mod 2 ^ ubits s)"

text \<open>
  \<^verbatim>\<open>copyValue\<close>: the new value of the destination, or the error, in which case the
  destination keeps its value. \<^verbatim>\<open>SetBytes\<close> panics on a slice whose elements are no
  bytes; the new slice is given the capacity of its length.
\<close>

fun copyValue :: "stdlib \<Rightarrow> gval \<Rightarrow> string \<Rightarrow> error + gval" where
  "copyValue L (VInt s i) src =
     (case ParseInt L src of Inl msg \<Rightarrow> Inl (LibError msg) | Inr v \<Rightarrow> Inr (SetInt s v))"
| "copyValue L (VUint s n) src =
     (case ParseUint L src of Inl msg \<Rightarrow> Inl (LibError msg) | Inr v \<Rightarrow> Inr (SetUint s v))"
| "copyValue L (VFloat s f) src =
     (case ParseFloat L src of
        Inl msg \<Rightarrow> Inl (LibError msg)
      | Inr v \<Rightarrow> Inr (VFloat s (if s = F32 then ToFloat32 L v else v)))"
| "copyValue L (VBool b) src =
     (case ParseBool L (TrimSpace L src) of
        Inl msg \<Rightarrow> Inl (LibError msg)
      | Inr v \<Rightarrow> Inr (VBool v))"
| "copyValue L (VString s) src = Inr (VString src)"
| "copyValue L (VSlice t vs n) src =
     (if Kind t = KUint U8
      then Inr (VSlice t (map (\<lambda>c. VUint U8 (of_char c)) src) (length src))
      else Inl (GoPanic ''reflect.Value.SetBytes of non-byte slice''))"
| "copyValue L (VTime t) src =
     (case ParseTime L src of Inl msg \<Rightarrow> Inl (LibError msg) | Inr tv \<Rightarrow> Inr (VTime tv))"
| "copyValue L dst src = Inr dst"

text \<open>The loop at the head of \<^verbatim>\<open>unmarshal\<close> for a nil \<^verbatim>\<open>start\<close>: read up to a start tag.\<close>

fun findStart :: "error \<Rightarrow> Token list \<Rightarrow> error + (StartElem \<times> Token list)" where
  "findStart fin [] = Inl fin"
| "findStart fin (StartElement nm as # ts) = Inr ((nm, as), ts)"
| "findStart fin (_ # ts) = findStart fin ts"

text \<open>
  The loop of the leaf case: character data is appended at depth zero only, start and end
  tags move the depth, the end tag at depth zero ends the loop.
\<close>

fun leafLoop :: "error \<Rightarrow> nat \<Rightarrow> string \<Rightarrow> Token list \<Rightarrow> error + (string \<times> Token list)" where
  "leafLoop fin depth data [] = Inl fin"
| "leafLoop fin depth data (StartElement nm as # ts) = leafLoop fin (Suc depth) data ts"
| "leafLoop fin depth data (CharData t # ts) =
     leafLoop fin depth (if depth = 0 then data @ t else data) ts"
| "leafLoop fin depth data (EndElement nm # ts) =
     (if depth = 0 then Inr (data, ts) else leafLoop fin (depth - 1) data ts)"
| "leafLoop fin depth data (_ # ts) = leafLoop fin depth data ts"

text \<open>The loop of \<^verbatim>\<open>unmarshalFields\<close> that eats the rest of an element no field matches.\<close>

fun eatLoop :: "error \<Rightarrow> nat \<Rightarrow> Token list \<Rightarrow> error + Token list" where
  "eatLoop fin depth [] = Inl fin"
| "eatLoop fin depth (StartElement nm as # ts) = eatLoop fin (Suc depth) ts"
| "eatLoop fin depth (EndElement nm # ts) =
     (if depth = 0 then Inr ts else eatLoop fin (depth - 1) ts)"
| "eatLoop fin depth (_ # ts) = eatLoop fin depth ts"

text \<open>Writing through \<^verbatim>\<open>val.Field(i)\<close>: the struct with field \<open>i\<close> replaced.\<close>

fun setField :: "gval \<Rightarrow> nat \<Rightarrow> gval \<Rightarrow> gval" where
  "setField (VStruct n fs vs) i v = VStruct n fs (vs[i := v])"
| "setField val i v = val"

text \<open>
  The attribute loops of \<^verbatim>\<open>unmarshalFields\<close>. The inner loop finds the first field that is
  flagged \<^verbatim>\<open>fAttr\<close> and carries the attribute's name.
\<close>

fun findAttrField :: "fieldInfo list \<Rightarrow> xml_Name \<Rightarrow> fieldInfo option" where
  "findAttrField [] nm = None"
| "findAttrField (fi # fis) nm =
     (if fi_flags fi AND fAttr = 0 then findAttrField fis nm
      else if fi_name fi = nm then Some fi
      else findAttrField fis nm)"

fun unmarshalAttrs ::
  "stdlib \<Rightarrow> fieldInfo list \<Rightarrow> gval \<Rightarrow> xml_Attr list \<Rightarrow> error option \<times> gval" where
  "unmarshalAttrs L flds val [] = (None, val)"
| "unmarshalAttrs L flds val (attr # as) =
     (case findAttrField flds (attr_Name attr) of
        None \<Rightarrow> unmarshalAttrs L flds val as
      | Some fi \<Rightarrow>
          (case Field val (fi_index fi) of
             Inl p \<Rightarrow> (Some p, val)
           | Inr fval \<Rightarrow>
               (case copyValue L fval (attr_Value attr) of
                  Inl err \<Rightarrow> (Some err, val)
                | Inr fval' \<Rightarrow> unmarshalAttrs L flds (setField val (fi_index fi) fval') as)))"

text \<open>
  The field search of the element loop: the first field that is not flagged \<^verbatim>\<open>fAttr\<close>
  and either carries the tag's name or is flagged \<^verbatim>\<open>fInterface\<close>.
\<close>

fun findElemField :: "fieldInfo list \<Rightarrow> xml_Name \<Rightarrow> fieldInfo option" where
  "findElemField [] nm = None"
| "findElemField (fi # fis) nm =
     (if fi_flags fi AND fAttr \<noteq> 0 then findElemField fis nm
      else if fi_name fi = nm \<or> fi_flags fi AND fInterface \<noteq> 0 then Some fi
      else findElemField fis nm)"

text \<open>The start tag's name after the prefix fallback of \<^verbatim>\<open>unmarshalFields\<close>.\<close>

definition fixSpace :: "XmlUtil \<Rightarrow> xml_Name \<Rightarrow> xml_Name" where
  "fixSpace x nm =
     (if lookupNamespaceUri x (Space nm) \<noteq> [] then nm\<lparr> Space := lookupNamespaceUri x (Space nm) \<rparr>
      else nm)"

text \<open>The growth step of the slice case: the backing array the new element is put in.\<close>

definition grow :: "gtype \<Rightarrow> gval list \<Rightarrow> nat \<Rightarrow> gval list" where
  "grow t backing n =
     (if n \<ge> length backing
      then take n backing @ replicate ((if 2 * n < 4 then 4 else 2 * n) - n) (zero t)
      else backing)"

text \<open>
  \<^verbatim>\<open>unmarshal\<close> from the kind switch on (\<open>unmarshalAt\<close>, with the start tag in hand),
  \<^verbatim>\<open>unmarshalFields\<close>, and its element loop (\<open>fieldsLoop\<close>). The recursion need not end
  (a registered sequence of interfaces resolves its own element to itself), so the three
  functions count down a fuel and \<open>None\<close> stands for a call that has not returned within
  it. A result is the error, the destination as the call left it, and the decoder.
  The cases on the destination follow \<^verbatim>\<open>switch val.Kind()\<close>: Struct, Slice, Interface,
  Ptr, and the leaf case for every other kind. An error of \<^verbatim>\<open>copyValue\<close> in the leaf case
  is dropped (line 466). The \<^verbatim>\<open>println\<close> of the interface case writes to standard error
  and is left out; \<^verbatim>\<open>val.Set(nval)\<close> there is taken to succeed.
\<close>

fun
  unmarshalAt ::
    "nat \<Rightarrow> stdlib \<Rightarrow> Decoder \<Rightarrow> gval \<Rightarrow> StartElem \<Rightarrow> (error option \<times> gval \<times> Decoder) option"
  and unmarshalFields ::
    "nat \<Rightarrow> stdlib \<Rightarrow> Decoder \<Rightarrow> gval \<Rightarrow> StartElem \<Rightarrow> (error option \<times> gval \<times> Decoder) option"
  and fieldsLoop ::
    "nat \<Rightarrow> stdlib \<Rightarrow> Decoder \<Rightarrow> fieldInfo list \<Rightarrow> gval
       \<Rightarrow> (error option \<times> gval \<times> Decoder) option"
where
  "unmarshalAt 0 L d val st = None"
| "unmarshalAt (Suc k) L d (VStruct n fs vs) st = unmarshalFields k L d (VStruct n fs vs) st"
| "unmarshalAt (Suc k) L d (VTime t) st = unmarshalFields k L d (VTime t) st"
| "unmarshalAt (Suc k) L d (VSlice t backing n) st =
     (let b = grow t backing n in
      if n < length b then
        (case unmarshalAt k L d (b ! n) st of
           None \<Rightarrow> None
         | Some (Some err, v, d') \<Rightarrow>
             Some (Some err, VSlice t (b[n := v]) (if is_panic err then Suc n else n), d')
         | Some (None, v, d') \<Rightarrow> Some (None, VSlice t (b[n := v]) (Suc n), d'))
      else Some (Some (GoPanic ''reflect: slice length out of range in SetLen''),
                 VSlice t b n, d))"
| "unmarshalAt (Suc k) L d (VIface nm dyn) st =
     (case getTypeByName (dec_xmlutil d) (fst st) of
        None \<Rightarrow> Some (None, VIface nm dyn, d)
      | Some ntyp \<Rightarrow>
          (case unmarshalAt k L d (zero ntyp) st of
             None \<Rightarrow> None
           | Some (Some err, v, d') \<Rightarrow> Some (Some err, VIface nm dyn, d')
           | Some (None, v, d') \<Rightarrow> Some (None, VIface nm (Some v), d')))"
| "unmarshalAt (Suc k) L d (VPtr t p) st =
     (case unmarshalAt k L d (case p of None \<Rightarrow> zero t | Some v \<Rightarrow> v) st of
        None \<Rightarrow> None
      | Some (err, v, d') \<Rightarrow> Some (err, VPtr t (Some v), d'))"
| "unmarshalAt (Suc k) L d val st =
     (case leafLoop (final d) 0 [] (toks d) of
        Inl err \<Rightarrow> Some (Some err, val, d\<lparr> toks := [] \<rparr>)
      | Inr (data, ts) \<Rightarrow>
          (case copyValue L val data of
             Inl err \<Rightarrow> Some (if is_panic err then Some err else None, val, d\<lparr> toks := ts \<rparr>)
           | Inr v \<Rightarrow> Some (None, v, d\<lparr> toks := ts \<rparr>)))"
| "unmarshalFields 0 L d val st = None"
| "unmarshalFields (Suc k) L d val st =
     (case TypeOf val of
        None \<Rightarrow> Some (Some (GoPanic ''reflect: call of reflect.Value.Type on zero Value''), val, d)
      | Some typ \<Rightarrow>
          (case getTypeInfo (dec_xmlutil d) typ of
             Inl err \<Rightarrow> Some (Some err, val, d)
           | Inr (ti, x') \<Rightarrow>
               (case unmarshalAttrs L (ti_fields ti) val (snd st) of
                  (Some err, val') \<Rightarrow> Some (Some err, val', d\<lparr> dec_xmlutil := x' \<rparr>)
                | (None, val') \<Rightarrow>
                    fieldsLoop k L (d\<lparr> dec_xmlutil := x' \<rparr>) (ti_fields ti) val')))"
| "fieldsLoop 0 L d flds val = None"
| "fieldsLoop (Suc k) L d flds val =
     (case toks d of
        [] \<Rightarrow> Some (Some (final d), val, d)
      | tok # ts \<Rightarrow>
          (case tok of
             StartElement nm as \<Rightarrow>
               (let t = (fixSpace (dec_xmlutil d) nm, as) in
                case findElemField flds (fst t) of
                  Some fi \<Rightarrow>
                    (case Field val (fi_index fi) of
                       Inl p \<Rightarrow> Some (Some p, val, d\<lparr> toks := ts \<rparr>)
                     | Inr fval \<Rightarrow>
                         (if \<not> IsValid fval then fieldsLoop k L (d\<lparr> toks := ts \<rparr>) flds val
                          else
                            (case unmarshalAt k L (d\<lparr> toks := ts \<rparr>) fval t of
                               None \<Rightarrow> None
                             | Some (Some err, fval', d') \<Rightarrow>
                                 Some (Some err, setField val (fi_index fi) fval', d')
                             | Some (None, fval', d') \<Rightarrow>
                                 fieldsLoop k L d' flds (setField val (fi_index fi) fval'))))
                | None \<Rightarrow>
                    (case eatLoop (final d) 0 ts of
                       Inl err \<Rightarrow> Some (Some err, val, d\<lparr> toks := [] \<rparr>)
                     | Inr ts' \<Rightarrow> fieldsLoop k L (d\<lparr> toks := ts' \<rparr>) flds val))
           | EndElement nm \<Rightarrow> Some (None, val, d\<lparr> toks := ts \<rparr>)
           | _ \<Rightarrow> fieldsLoop k L (d\<lparr> toks := ts \<rparr>) flds val))"

definition unmarshal ::
  "nat \<Rightarrow> stdlib \<Rightarrow> Decoder \<Rightarrow> gval \<Rightarrow> StartElem option
     \<Rightarrow> (error option \<times> gval \<times> Decoder) option" where
  "unmarshal k L d val start =
     (case start of
        Some st \<Rightarrow> unmarshalAt k L d val st
      | None \<Rightarrow>
          (case findStart (final d) (toks d) of
             Inl err \<Rightarrow> Some (Some err, val, d\<lparr> toks := [] \<rparr>)
           | Inr (st, ts) \<Rightarrow> unmarshalAt k L (d\<lparr> toks := ts \<rparr>) val st))"

text \<open>
  The \<^verbatim>\<open>for\<close> loop of \<^verbatim>\<open>DecodeElement\<close> on a slice destination: it ends with the first
  error.
\<close>

fun decodeLoop ::
  "nat \<Rightarrow> stdlib \<Rightarrow> Decoder \<Rightarrow> gval \<Rightarrow> (error \<times> gval \<times> Decoder) option" where
  "decodeLoop 0 L d elem = None"
| "decodeLoop (Suc k) L d elem =
     (case unmarshal k L d elem None of
        None \<Rightarrow> None
      | Some (Some err, elem', d') \<Rightarrow> Some (err, elem', d')
      | Some (None, elem', d') \<Rightarrow> decodeLoop k L d' elem')"

fun setPointee :: "gval \<Rightarrow> gval \<Rightarrow> gval" where
  "setPointee (VPtr t (Some old)) v = VPtr t (Some v)"
| "setPointee val v = val"

text \<open>
  \<^verbatim>\<open>DecodeElement\<close>. The result of the first \<^verbatim>\<open>unmarshal\<close> on a slice destination is
  assigned to \<^verbatim>\<open>err\<close> and overwritten by the loop without being read (lines 396 to 398);
  only a panic of that call gets out.
\<close>

definition DecodeElement ::
  "nat \<Rightarrow> stdlib \<Rightarrow> Decoder \<Rightarrow> gval \<Rightarrow> StartElem option
     \<Rightarrow> (error option \<times> gval \<times> Decoder) option" where
  "DecodeElement k L d v start =
     (if KindV (ValueOf v) \<noteq> KPtr then Some (Some NonPointer, v, d)
      else
        (case Elem (ValueOf v) of
           Inl p \<Rightarrow> Some (Some p, v, d)
         | Inr elem \<Rightarrow>
             (if KindV elem = KSlice then
                (case unmarshal k L d elem start of
                   None \<Rightarrow> None
                 | Some (err0, elem1, d1) \<Rightarrow>
                     (if (case err0 of None \<Rightarrow> False | Some e \<Rightarrow> is_panic e)
                      then Some (err0, setPointee (ValueOf v) elem1, d1)
                      else
                        (case decodeLoop k L d1 elem1 of
                           None \<Rightarrow> None
                         | Some (err, elem2, d2) \<Rightarrow>
                             Some (if err = EOF then None else Some err,
                                   setPointee (ValueOf v) elem2, d2))))
              else
                (case unmarshal k L d elem start of
                   None \<Rightarrow> None
                 | Some (err, elem', d') \<Rightarrow> Some (err, setPointee (ValueOf v) elem', d')))))"

definition Decode ::
  "nat \<Rightarrow> stdlib \<Rightarrow> Decoder \<Rightarrow> gval \<Rightarrow> (error option \<times> gval \<times> Decoder) option" where
  "Decode k L d v = DecodeElement k L d v None"

section \<open>Notions the statements use\<close>

text \<open>
  The content of an element as a tree, and the token sequence the tokenizer produces for
  it. The text of a node list is its character data at depth zero; the texts of a
  document are the texts of its top-level elements, in order.
\<close>

datatype node =
    Text string
  | Child xml_Name "xml_Attr list" "node list"
  | Remark string
  | Instruction string string
  | Doctype string

fun tokensOf :: "node \<Rightarrow> Token list" and tokensOfAll :: "node list \<Rightarrow> Token list" where
  "tokensOf (Text t) = [CharData t]"
| "tokensOf (Child nm as ns) = StartElement nm as # tokensOfAll ns @ [EndElement nm]"
| "tokensOf (Remark c) = [Comment c]"
| "tokensOf (Instruction t c) = [ProcInst t c]"
| "tokensOf (Doctype c) = [Directive c]"
| "tokensOfAll [] = []"
| "tokensOfAll (n # ns) = tokensOf n @ tokensOfAll ns"

fun ownText :: "node list \<Rightarrow> string" where
  "ownText [] = []"
| "ownText (Text t # ns) = t @ ownText ns"
| "ownText (_ # ns) = ownText ns"

fun topTexts :: "node list \<Rightarrow> string list" where
  "topTexts [] = []"
| "topTexts (Child nm as cs # ns) = ownText cs # topTexts ns"
| "topTexts (_ # ns) = topTexts ns"

text \<open>The destinations of the \<^verbatim>\<open>default\<close> case of the kind switch in \<^verbatim>\<open>unmarshal\<close>.\<close>

definition isLeafSlot :: "gval \<Rightarrow> bool" where
  "isLeafSlot val = (KindV val \<notin> {KStruct, KSlice, KInterface, KPtr})"

text \<open>The test \<^verbatim>\<open>fi.flags&fAttr != 0\<close>.\<close>

definition isAttribute :: "fieldInfo \<Rightarrow> bool" where
  "isAttribute fi = (fi_flags fi AND fAttr \<noteq> 0)"

fun isString :: "gval \<Rightarrow> bool" where
  "isString (VString s) = True"
| "isString _ = False"

text \<open>\<^verbatim>\<open>Value.Cap()\<close> of a slice.\<close>

fun Cap :: "gval \<Rightarrow> nat" where
  "Cap (VSlice t backing n) = length backing"
| "Cap _ = 0"

text \<open>
  A slice of strings that holds the strings \<open>ss\<close>; the rest of its backing array holds
  strings as well, whatever they are.
\<close>

definition stringSlice :: "gval \<Rightarrow> string list \<Rightarrow> bool" where
  "stringSlice r ss =
     (\<exists>backing. r = VSlice TString backing (length ss) \<and> list_all isString backing \<and>
        length ss \<le> length backing \<and> take (length ss) backing = map VString ss)"

text \<open>
  One writer state extends another when it differs by bytes added to the end of the
  pending output. \<open>produced\<close> is what \<^verbatim>\<open>marshalValue\<close> adds for the argument of Encode,
  and an outcome has \<open>panicked\<close> when it is a panic instead of a returned error.
\<close>

definition appended :: "Writer \<Rightarrow> Writer \<Rightarrow> bool" where
  "appended w w' = (\<exists>out. w' = w\<lparr> pending := pending w @ out \<rparr>)"

definition panicked :: "error option \<Rightarrow> bool" where
  "panicked r = (case r of None \<Rightarrow> False | Some err \<Rightarrow> is_panic err)"

definition produced :: "stdlib \<Rightarrow> Encoder \<Rightarrow> gval \<Rightarrow> string" where
  "produced L e v =
     drop (length (pending (writer e)))
       (pending (writer (snd (marshalValue L e (ValueOf v) None))))"

section \<open>A standard library for the worked examples\<close>

text \<open>
  The examples below run the model on ASCII input against this instance of the library
  parameter: decimal integers as strconv reads and writes them, the boolean literals of
  \<^verbatim>\<open>strconv.ParseBool\<close>, the escapes \<^verbatim>\<open>xml.Escape\<close> applies to ASCII text (a control byte
  outside the XML character range becomes the three bytes of U+FFFD). No example formats
  or parses a float or a time; these entries give the empty text and an error.
\<close>

fun decimal :: "nat \<Rightarrow> string" where
  "decimal n =
     (if n < 10 then [char_of (48 + n)]
      else decimal (n div 10) @ [char_of (48 + n mod 10)])"

declare decimal.simps [simp del]

definition isDigit :: "char \<Rightarrow> bool" where
  "isDigit c = (48 \<le> (of_char c :: nat) \<and> (of_char c :: nat) \<le> 57)"

fun digitsValue :: "int \<Rightarrow> string \<Rightarrow> int option" where
  "digitsValue acc [] = Some acc"
| "digitsValue acc (c # cs) =
     (if isDigit c then digitsValue (10 * acc + (of_char c - 48)) cs else None)"

definition parseUint :: "string \<Rightarrow> string + nat" where
  "parseUint s =
     (case (if s = [] then None else digitsValue 0 s) of
        None \<Rightarrow> Inl ''strconv.ParseUint: invalid syntax''
      | Some n \<Rightarrow>
          (if n < 2 ^ 64 then Inr (nat n)
           else Inl ''strconv.ParseUint: value out of range''))"

definition parseInt :: "string \<Rightarrow> string + int" where
  "parseInt s =
     (let neg = (s \<noteq> [] \<and> hd s = CHR ''-'');
          ds = (if s \<noteq> [] \<and> (hd s = CHR ''-'' \<or> hd s = CHR ''+'') then tl s else s)
      in (case (if ds = [] then None else digitsValue 0 ds) of
            None \<Rightarrow> Inl ''strconv.ParseInt: invalid syntax''
          | Some n \<Rightarrow>
              (if neg then
                 (if n \<le> 2 ^ 63 then Inr (- n)
                  else Inl ''strconv.ParseInt: value out of range'')
               else
                 (if n < 2 ^ 63 then Inr n
                  else Inl ''strconv.ParseInt: value out of range''))))"

definition parseBool :: "string \<Rightarrow> string + bool" where
  "parseBool s =
     (if s \<in> set [''1'', ''t'', ''T'', ''TRUE'', ''true'', ''True''] then Inr True
      else if s \<in> set [''0'', ''f'', ''F'', ''FALSE'', ''false'', ''False''] then Inr False
      else Inl ''strconv.ParseBool: invalid syntax'')"

definition isSpace :: "char \<Rightarrow> bool" where
  "isSpace c = (c = CHR '' '' \<or> (9 \<le> (of_char c :: nat) \<and> (of_char c :: nat) \<le> 13))"

definition trimSpace :: "string \<Rightarrow> string" where
  "trimSpace s = rev (dropWhile isSpace (rev (dropWhile isSpace s)))"

definition escapeChar :: "char \<Rightarrow> string" where
  "escapeChar c =
     (if c = CHR 0x22 then ''&#34;''
      else if c = CHR 0x27 then ''&#39;''
      else if c = CHR ''&'' then ''&amp;''
      else if c = CHR ''<'' then ''&lt;''
      else if c = CHR ''>'' then ''&gt;''
      else if c = CHR 0x09 then ''&#x9;''
      else if c = CHR 0x0A then ''&#xA;''
      else if c = CHR 0x0D then ''&#xD;''
      else if (of_char c :: nat) < 32 then [CHR 0xEF, CHR 0xBF, CHR 0xBD]
      else [c])"

definition asciiLib :: stdlib where
  "asciiLib =
     \<lparr> FormatInt = (\<lambda>i. if i < 0 then CHR ''-'' # decimal (nat (- i)) else decimal (nat i)),
       FormatUint = decimal,
       FormatFloat = (\<lambda>f. []),
       FormatBool = (\<lambda>b. if b then ''true'' else ''false''),
       FormatTime = (\<lambda>t. []),
       Escape = (\<lambda>s. concat (map escapeChar s)),
       ParseInt = parseInt,
       ParseUint = parseUint,
       ParseFloat = (\<lambda>s. Inl ''strconv.ParseFloat''),
       ParseBool = parseBool,
       TrimSpace = trimSpace,
       ParseTime = (\<lambda>s. Inl ''time.Parse''),
       ToFloat32 = (\<lambda>f. f) \<rparr>"

section \<open>Fuel\<close>

text \<open>
  A call that returns within some fuel returns the same with more: \<open>None\<close> only ever
  says that the fuel given was not enough.
\<close>

lemma fuel_Suc:
  "(unmarshalAt k L d v st = Some r \<longrightarrow> unmarshalAt (Suc k) L d v st = Some r) \<and>
   (unmarshalFields k L d v st = Some r \<longrightarrow> unmarshalFields (Suc k) L d v st = Some r) \<and>
   (fieldsLoop k L d flds v = Some r \<longrightarrow> fieldsLoop (Suc k) L d flds v = Some r)"
proof (induction k arbitrary: L d v st r flds)
  case 0
  show ?case by simp
next
  case (Suc k)
  have A: "\<And>L d v st r. unmarshalAt k L d v st = Some r \<Longrightarrow> unmarshalAt (Suc k) L d v st = Some r"
    using Suc.IH by blast
  have B: "\<And>L d v st r. unmarshalFields k L d v st = Some r \<Longrightarrow> unmarshalFields (Suc k) L d v st = Some r"
    using Suc.IH by blast
  have C: "\<And>L d v flds r. fieldsLoop k L d flds v = Some r \<Longrightarrow> fieldsLoop (Suc k) L d flds v = Some r"
    using Suc.IH by blast
  have a: "unmarshalAt (Suc k) L d v st = Some r \<Longrightarrow> unmarshalAt (Suc (Suc k)) L d v st = Some r"
  proof (cases v)
    case (VSlice t backing n)
    assume h: "unmarshalAt (Suc k) L d v st = Some r"
    show ?thesis
    proof (cases "n < length (grow t backing n)")
      case True
      with h VSlice obtain x where x: "unmarshalAt k L d (grow t backing n ! n) st = Some x"
        by (cases "unmarshalAt k L d (grow t backing n ! n) st") (simp_all add: Let_def)
      from A [OF x] x h True VSlice show ?thesis
        using unmarshalAt.simps(4) [of k L d t backing n st]
          unmarshalAt.simps(4) [of "Suc k" L d t backing n st]
        by (simp only: Let_def if_True option.case)
    next
      case False
      with h VSlice show ?thesis by (simp add: Let_def)
    qed
  next
    case (VIface nm dyn)
    assume h: "unmarshalAt (Suc k) L d v st = Some r"
    show ?thesis
    proof (cases "getTypeByName (dec_xmlutil d) (fst st)")
      case None
      with h VIface show ?thesis by simp
    next
      case (Some ntyp)
      with h VIface obtain x where x: "unmarshalAt k L d (zero ntyp) st = Some x"
        by (cases "unmarshalAt k L d (zero ntyp) st") simp_all
      from A [OF x] x h Some VIface show ?thesis by simp
    qed
  next
    case (VPtr t p)
    assume h: "unmarshalAt (Suc k) L d v st = Some r"
    with VPtr obtain x where x: "unmarshalAt k L d (case p of None \<Rightarrow> zero t | Some v \<Rightarrow> v) st = Some x"
      by (cases "unmarshalAt k L d (case p of None \<Rightarrow> zero t | Some v \<Rightarrow> v) st") simp_all
    from A [OF x] x h VPtr show ?thesis by simp
  next
    case (VStruct n fs vs)
    assume "unmarshalAt (Suc k) L d v st = Some r"
    with VStruct B show ?thesis by (simp del: unmarshalFields.simps)
  next
    case (VTime t)
    assume "unmarshalAt (Suc k) L d v st = Some r"
    with VTime B show ?thesis by (simp del: unmarshalFields.simps)
  qed simp_all
  have b: "unmarshalFields (Suc k) L d v st = Some r \<Longrightarrow> unmarshalFields (Suc (Suc k)) L d v st = Some r"
    apply (subst unmarshalFields.simps(2))
    apply (subst (asm) unmarshalFields.simps(2))
    apply (auto simp del: fieldsLoop.simps split: option.splits sum.splits prod.splits intro: C)
    done
  have c: "fieldsLoop (Suc k) L d flds v = Some r \<Longrightarrow> fieldsLoop (Suc (Suc k)) L d flds v = Some r"
    apply (subst fieldsLoop.simps(2))
    apply (subst (asm) fieldsLoop.simps(2))
    apply (auto simp del: fieldsLoop.simps unmarshalAt.simps simp add: Let_def
        split: list.splits Token.splits option.splits sum.splits prod.splits if_splits
        intro: C dest: A)
    apply (auto simp del: fieldsLoop.simps unmarshalAt.simps dest!: A intro: C)
    done
  from a b c show ?case by blast
qed


lemma fuel_mono:
  "unmarshalAt k L d v st = Some r \<Longrightarrow> unmarshalAt (k + j) L d v st = Some r"
  by (induction j) (simp_all add: fuel_Suc del: unmarshalAt.simps)

lemma unmarshal_fuel_mono:
  "unmarshal k L d v start = Some r \<Longrightarrow> unmarshal (k + j) L d v start = Some r"
  by (auto simp: unmarshal_def fuel_mono split: option.splits sum.splits prod.splits)

lemma decodeLoop_Suc:
  "decodeLoop k L d v = Some r \<Longrightarrow> decodeLoop (Suc k) L d v = Some r"
proof (induction k arbitrary: d v)
  case 0
  then show ?case by simp
next
  case (Suc k)
  from Suc.prems obtain x where x: "unmarshal k L d v None = Some x"
    by (cases "unmarshal k L d v None") simp_all
  from unmarshal_fuel_mono [OF x, of 1] have x': "unmarshal (Suc k) L d v None = Some x" by simp
  obtain e v' d' where xe: "x = (e, v', d')" by (cases x)
  show ?case
  proof (cases e)
    case None
    with Suc.prems x xe have "decodeLoop k L d' v' = Some r" by simp
    from Suc.IH [OF this] x' xe None show ?thesis by (simp del: decodeLoop.simps add: decodeLoop.simps(2) [of "Suc k"])
  next
    case (Some err)
    with Suc.prems x x' xe show ?thesis by (simp del: decodeLoop.simps add: decodeLoop.simps(2) [of "Suc k"] decodeLoop.simps(2) [of k])
  qed
qed


lemma decodeLoop_fuel_mono:
  "decodeLoop k L d v = Some r \<Longrightarrow> decodeLoop (k + j) L d v = Some r"
  by (induction j) (simp_all add: decodeLoop_Suc del: decodeLoop.simps)

lemma DecodeElement_fuel_mono:
  assumes "DecodeElement k L d v start = Some r"
  shows "DecodeElement (k + j) L d v start = Some r"
proof (cases "KindV (ValueOf v) \<noteq> KPtr")
  case True
  with assms show ?thesis by (simp add: DecodeElement_def)
next
  case ptr: False
  show ?thesis
  proof (cases "Elem (ValueOf v)")
    case (Inl p)
    with assms ptr show ?thesis by (simp add: DecodeElement_def)
  next
    case (Inr elem)
    from assms ptr Inr obtain x where x: "unmarshal k L d elem start = Some x"
      by (cases "unmarshal k L d elem start") (simp_all add: DecodeElement_def split: if_splits)
    note x' = unmarshal_fuel_mono [OF x, of j]
    obtain e0 e1 d1 where xe: "x = (e0, e1, d1)" by (cases x)
    show ?thesis
    proof (cases "KindV elem = KSlice \<and> \<not> (case e0 of None \<Rightarrow> False | Some e \<Rightarrow> is_panic e)")
      case True
      from ptr Inr x xe True assms obtain y where y: "decodeLoop k L d1 e1 = Some y"
        by (cases "decodeLoop k L d1 e1") (simp_all add: DecodeElement_def)
      note y' = decodeLoop_fuel_mono [OF y, of j]
      from ptr Inr x x' xe True y y' assms show ?thesis by (simp add: DecodeElement_def)
    next
      case False
      from ptr Inr x x' xe False assms show ?thesis
        by (auto simp: DecodeElement_def split: if_splits)
    qed
  qed
qed

section \<open>Namespace table\<close>

lemma RegisterNamespace_keeps:
  assumes "keeps_xmlns (uri, prefix)"
    and "lookupPrefix x ''xmlns'' = ''xmlns''"
    and "lookupNamespaceUri x ''xmlns'' = ''xmlns''"
  shows "lookupPrefix (RegisterNamespace x uri prefix) ''xmlns'' = ''xmlns'' \<and>
         lookupNamespaceUri (RegisterNamespace x uri prefix) ''xmlns'' = ''xmlns''"
  using assms
  by (auto simp: keeps_xmlns_def RegisterNamespace_def lookupPrefix_def lookupNamespaceUri_def)

lemma registerAll_keeps:
  assumes "list_all keeps_xmlns calls"
    and "lookupPrefix x ''xmlns'' = ''xmlns''"
    and "lookupNamespaceUri x ''xmlns'' = ''xmlns''"
  shows "lookupPrefix (registerAll x calls) ''xmlns'' = ''xmlns'' \<and>
         lookupNamespaceUri (registerAll x calls) ''xmlns'' = ''xmlns''"
  using assms
proof (induction calls arbitrary: x)
  case Nil
  then show ?case by simp
next
  case (Cons c calls)
  obtain uri prefix where c: "c = (uri, prefix)" by (cases c)
  from Cons.prems have k: "keeps_xmlns (uri, prefix)" and rest: "list_all keeps_xmlns calls"
    by (simp_all add: c)
  from RegisterNamespace_keeps [OF k Cons.prems(2) Cons.prems(3)]
  have "lookupPrefix (RegisterNamespace x uri prefix) ''xmlns'' = ''xmlns''"
    and "lookupNamespaceUri (RegisterNamespace x uri prefix) ''xmlns'' = ''xmlns''"
    by simp_all
  from Cons.IH [OF rest this] show ?case by (simp add: c)
qed

text \<open>
  C5 as stated fails: nothing guards the reserved key, so one call that rebinds the URI
  \<open>xmlns\<close> to another prefix breaks the pair.
\<close>

theorem C5_xmlns_pair_overwritten:
  "lookupPrefix (registerAll NewXmlUtil [(''xmlns'', ''x'')]) ''xmlns'' \<noteq> ''xmlns''"
  by (simp add: NewXmlUtil_def RegisterNamespace_def lookupPrefix_def)

text \<open>
  C5 (amended): after construction, and after any sequence of RegisterNamespace calls each
  of which binds \<open>xmlns\<close> on neither side or on both, prefixFor(xmlns) = xmlns and
  uriFor(xmlns) = xmlns.
\<close>

theorem C5_xmlns_pair_kept:
  "list_all keeps_xmlns calls \<Longrightarrow>
     lookupPrefix (registerAll NewXmlUtil calls) ''xmlns'' = ''xmlns'' \<and>
     lookupNamespaceUri (registerAll NewXmlUtil calls) ''xmlns'' = ''xmlns''"
  by (rule registerAll_keeps)
     (simp_all add: NewXmlUtil_def lookupPrefix_def lookupNamespaceUri_def)

theorem C5_xmlns_pair_kept_witness:
  "list_all keeps_xmlns [(''urn:example'', ''ex''), (''xmlns'', ''xmlns'')] \<and>
   lookupPrefix (registerAll NewXmlUtil [(''urn:example'', ''ex''), (''xmlns'', ''xmlns'')])
     ''xmlns'' = ''xmlns'' \<and>
   lookupNamespaceUri (registerAll NewXmlUtil [(''urn:example'', ''ex''), (''xmlns'', ''xmlns'')])
     ''xmlns'' = ''xmlns''"
proof -
  have h: "list_all keeps_xmlns [(''urn:example'', ''ex''), (''xmlns'', ''xmlns'')]"
    by (simp add: keeps_xmlns_def)
  from C5_xmlns_pair_kept [OF h] h show ?thesis by simp
qed

section \<open>Evaluation of the model on given inputs\<close>

text \<open>The definitions a concrete run unfolds.\<close>

lemmas registry_eval =
  NewXmlUtil_def getFields_def lookupNamespaceUri_def lookupPrefix_def
  beforeColon_def afterColon_def fAttr_def fOmitEmpty_def fInterface_def getTypeByName_def Let_def

lemmas encoder_eval =
  Encode_def NewEncoder_def IsValid_def KindV_def elemKind_def marshalAttributes_def
  attrTag_def elemTag_def WriteByte_def WriteString_def Flush_def Let_def

lemmas decoder_eval =
  Decode_def DecodeElement_def unmarshal_def NewDecoder_def IsValid_def KindV_def
  fixSpace_def grow_def Let_def

lemmas asciiLib_eval = asciiLib_def parseInt_def parseUint_def isDigit_def SetInt_def SetUint_def

section \<open>Type registry: registering twice\<close>

text \<open>
  C4. Registration looks the argument's own type up, but stores the descriptor under the
  type behind the pointers. Registering \<^verbatim>\<open>&T{}\<close> gives the descriptor of \<^verbatim>\<open>T\<close>;
  registering \<^verbatim>\<open>&T{}\<close> again, under another name, does not panic and replaces that
  descriptor; only registering \<^verbatim>\<open>T{}\<close> itself meets the check and panics.
\<close>

theorem C4_pointer_registered_twice:
  "RegisterType NewXmlUtil (VPtr (TStruct ''T'' []) (Some (VStruct ''T'' [] []))) =
     Inr (NewXmlUtil\<lparr> typeMap :=
            [(TStruct ''T'' [],
              \<lparr> ti_name = \<lparr>Space = [], Local = ''T''\<rparr>, ti_attrs = [], ti_fields = [] \<rparr>)] \<rparr>) \<and>
   RegisterTypeMore
     (NewXmlUtil\<lparr> typeMap :=
        [(TStruct ''T'' [],
          \<lparr> ti_name = \<lparr>Space = [], Local = ''T''\<rparr>, ti_attrs = [], ti_fields = [] \<rparr>)] \<rparr>)
     (VPtr (TStruct ''T'' []) (Some (VStruct ''T'' [] []))) \<lparr>Space = [], Local = ''Other''\<rparr> [] =
     Inr (NewXmlUtil\<lparr> typeMap :=
            [(TStruct ''T'' [],
              \<lparr> ti_name = \<lparr>Space = [], Local = ''Other''\<rparr>, ti_attrs = [], ti_fields = [] \<rparr>)] \<rparr>) \<and>
   RegisterTypeMore
     (NewXmlUtil\<lparr> typeMap :=
        [(TStruct ''T'' [],
          \<lparr> ti_name = \<lparr>Space = [], Local = ''T''\<rparr>, ti_attrs = [], ti_fields = [] \<rparr>)] \<rparr>)
     (VStruct ''T'' [] []) \<lparr>Space = [], Local = ''Other''\<rparr> [] =
     Inl (GoPanic ''xmlutil: T already registered'')"
  by (simp add: RegisterType_def RegisterTypeMore_def registry_eval)

section \<open>Encoder: values without a leaf encoding, nil values\<close>

text \<open>
  C1. A struct whose attribute field is a map: \<^verbatim>\<open>marshalText\<close> reports the unsupported
  type, \<^verbatim>\<open>marshalAttributes\<close> returns it, and \<^verbatim>\<open>marshalValue\<close> answers that error with
  \<^verbatim>\<open>return nil\<close>. Encode returns nil and the sink holds the unfinished tag. The same map
  as an element field does give the unsupported-type error.
\<close>

theorem C1_attribute_error_is_dropped:
  "fst (Encode L (NewEncoder NewXmlUtil [])
          (VStruct ''T'' [StructField ''A'' [] False ''a,attr'' (TMap TString TString)]
             [VMap TString TString []])) = None \<and>
   sink (writer (snd (Encode L (NewEncoder NewXmlUtil [])
          (VStruct ''T'' [StructField ''A'' [] False ''a,attr'' (TMap TString TString)]
             [VMap TString TString []])))) = ''<T a='' @ [CHR 0x22] \<and>
   fst (Encode L (NewEncoder NewXmlUtil [])
          (VStruct ''T'' [StructField ''A'' [] False ''a'' (TMap TString TString)]
             [VMap TString TString []])) = Some (UnsupportedTypeError (TMap TString TString))"
  by (simp add: registry_eval encoder_eval marshalValue.simps)

text \<open>
  C6. A struct with a nil interface field that is not flagged omitempty:
  \<^verbatim>\<open>marshalFields\<close> asks \<^verbatim>\<open>fval.Elem().Type()\<close> before \<^verbatim>\<open>marshalValue\<close> gets to test
  for nil, and reflect panics on the zero Value. A nil pointer field takes the other path
  and writes nothing between the tags of its struct.
\<close>

theorem C6_nil_interface_field_panics:
  "fst (Encode L (NewEncoder NewXmlUtil [])
          (VStruct ''T'' [StructField ''X'' [] False [] (TInterface [])] [VIface [] None])) =
     Some (GoPanic ''reflect: call of reflect.Value.Type on zero Value'') \<and>
   Encode L (NewEncoder NewXmlUtil [])
     (VStruct ''T'' [StructField ''P'' [] False [] (TPtr TString)] [VPtr TString None]) =
     (None,
      \<lparr> xmlutil = NewXmlUtil\<lparr> typeMap :=
          [(TStruct ''T'' [StructField ''P'' [] False [] (TPtr TString)],
            \<lparr> ti_name = \<lparr>Space = [], Local = ''T''\<rparr>, ti_attrs = [],
               ti_fields = [\<lparr> fi_index = 0, fi_name = \<lparr>Space = [], Local = ''P''\<rparr>,
                               fi_flags = 0 \<rparr>] \<rparr>)] \<rparr>,
        writer = \<lparr> sink = ''<T></T>'', pending = [], flushes = 1 \<rparr> \<rparr>)"
  by (simp add: registry_eval encoder_eval marshalValue.simps)

section \<open>Decoder: errors that are dropped, unregistered element names\<close>

text \<open>
  C2. The document \<^verbatim>\<open><T a="x"></T>\<close> decoded into a slice of \<^verbatim>\<open>T\<close>, where \<^verbatim>\<open>a\<close> is an
  integer attribute: the parse error of the first element is overwritten by the loop,
  which then meets the end of the stream, and Decode returns nil, whatever fuel above 2
  the run is given. Decoded into a single \<^verbatim>\<open>T\<close>, the same document returns the error.
\<close>

theorem C2_first_element_error_is_dropped:
  "map_option fst
     (Decode (k + 3) asciiLib
        (NewDecoder NewXmlUtil
           [StartElement \<lparr>Space = [], Local = ''T''\<rparr>
              [\<lparr>attr_Name = \<lparr>Space = [], Local = ''a''\<rparr>, attr_Value = ''x''\<rparr>],
            EndElement \<lparr>Space = [], Local = ''T''\<rparr>] EOF)
        (VPtr (TSlice (TStruct ''T'' [StructField ''A'' [] False ''a,attr'' (TInt I0)]))
           (Some (VSlice (TStruct ''T'' [StructField ''A'' [] False ''a,attr'' (TInt I0)]) [] 0))))
     = Some None \<and>
   map_option fst
     (Decode (k + 3) asciiLib
        (NewDecoder NewXmlUtil
           [StartElement \<lparr>Space = [], Local = ''T''\<rparr>
              [\<lparr>attr_Name = \<lparr>Space = [], Local = ''a''\<rparr>, attr_Value = ''x''\<rparr>],
            EndElement \<lparr>Space = [], Local = ''T''\<rparr>] EOF)
        (VPtr (TStruct ''T'' [StructField ''A'' [] False ''a,attr'' (TInt I0)])
           (Some (VStruct ''T'' [StructField ''A'' [] False ''a,attr'' (TInt I0)] [VInt I0 0]))))
     = Some (Some (LibError ''strconv.ParseInt: invalid syntax''))"
proof -
  have k: "k + 3 = Suc (Suc (Suc k))" by simp
  show ?thesis
    unfolding k by (simp add: registry_eval decoder_eval asciiLib_eval)
qed

text \<open>
  C3. The struct has a string field \<^verbatim>\<open>B\<close> and an interface field \<^verbatim>\<open>A\<close>; no type named
  \<^verbatim>\<open>Unknown\<close> is registered. The interface case returns without reading anything, so the
  element loop of the struct takes the end tag of \<^verbatim>\<open>Unknown\<close> for its own: Decode returns
  nil with \<^verbatim>\<open>A\<close> unset, \<^verbatim>\<open>B\<close> still empty and \<^verbatim>\<open><B>hi</B></T>\<close> unread.
\<close>

theorem C3_unknown_element_ends_the_struct:
  "map_option (\<lambda>(err, v, d). (err, v, toks d))
     (Decode (k + 5) L
        (NewDecoder NewXmlUtil
           [StartElement \<lparr>Space = [], Local = ''T''\<rparr> [],
            StartElement \<lparr>Space = [], Local = ''Unknown''\<rparr> [],
            CharData ''x'',
            EndElement \<lparr>Space = [], Local = ''Unknown''\<rparr>,
            StartElement \<lparr>Space = [], Local = ''B''\<rparr> [],
            CharData ''hi'',
            EndElement \<lparr>Space = [], Local = ''B''\<rparr>,
            EndElement \<lparr>Space = [], Local = ''T''\<rparr>] EOF)
        (VPtr (TStruct ''T'' [StructField ''B'' [] False [] TString,
                              StructField ''A'' [] False [] (TInterface [])])
           (Some (VStruct ''T'' [StructField ''B'' [] False [] TString,
                                 StructField ''A'' [] False [] (TInterface [])]
                    [VString [], VIface [] None]))))
   = Some (None,
           VPtr (TStruct ''T'' [StructField ''B'' [] False [] TString,
                                StructField ''A'' [] False [] (TInterface [])])
             (Some (VStruct ''T'' [StructField ''B'' [] False [] TString,
                                   StructField ''A'' [] False [] (TInterface [])]
                      [VString [], VIface [] None])),
           [StartElement \<lparr>Space = [], Local = ''B''\<rparr> [],
            CharData ''hi'',
            EndElement \<lparr>Space = [], Local = ''B''\<rparr>,
            EndElement \<lparr>Space = [], Local = ''T''\<rparr>])"
proof -
  have k: "k + 5 = Suc (Suc (Suc (Suc (Suc k))))" by simp
  show ?thesis
    unfolding k by (simp add: registry_eval decoder_eval)
qed

section \<open>Encoder: the flush\<close>

lemma appended_refl [simp]: "appended w w"
  unfolding appended_def by (rule exI [of _ "[]"]) simp

lemma appended_trans: "appended a b \<Longrightarrow> appended b c \<Longrightarrow> appended a c"
  by (auto simp: appended_def)

lemma appended_WriteByte [simp]: "appended w (WriteByte c w)"
  by (auto simp: appended_def WriteByte_def)

lemma appended_WriteString [simp]: "appended w (WriteString s w)"
  by (auto simp: appended_def WriteString_def)

lemma appended_then_WriteByte: "appended a b \<Longrightarrow> appended a (WriteByte c b)"
  by (rule appended_trans [OF _ appended_WriteByte])

lemma appended_then_WriteString: "appended a b \<Longrightarrow> appended a (WriteString s b)"
  by (rule appended_trans [OF _ appended_WriteString])

lemma appended_from_WriteByte: "appended (WriteByte c a) b \<Longrightarrow> appended a b"
  by (rule appended_trans [OF appended_WriteByte])

lemma appended_from_WriteString: "appended (WriteString s a) b \<Longrightarrow> appended a b"
  by (rule appended_trans [OF appended_WriteString])

lemmas appended_steps =
  appended_then_WriteByte appended_then_WriteString

lemma marshalText_appended: "marshalText L w val = (r, w') \<Longrightarrow> appended w w'"
  by (induction L w val rule: marshalText.induct) (auto split: option.splits if_splits)

lemma marshalAttrFields_appended:
  "marshalAttrFields L x val flds check w = (r, check', w') \<Longrightarrow> appended w w'"
proof (induction flds arbitrary: check w)
  case Nil
  then show ?case by simp
next
  case (Cons fi flds)
  show ?case
  proof (cases "fi_flags fi AND fAttr = 0 \<or> fi_name fi \<in> check")
    case True
    with Cons.prems have "marshalAttrFields L x val flds check w = (r, check', w')"
      by (auto split: if_splits)
    then show ?thesis by (rule Cons.IH)
  next
    case False
    define w1 where "w1 = WriteByte CHR 0x22 (WriteByte CHR ''=''
                    (WriteString (attrTag x (fi_name fi)) (WriteByte CHR '' '' w)))"
    have w1: "appended w w1"
      unfolding w1_def by (intro appended_steps) simp
    show ?thesis
    proof (cases "Field val (fi_index fi)")
      case (Inl p)
      with False Cons.prems have "w' = w1" by (simp add: w1_def Let_def)
      with w1 show ?thesis by simp
    next
      case (Inr fval)
      obtain r2 w2 where mt: "marshalText L w1 fval = (r2, w2)" by (cases "marshalText L w1 fval")
      have w2: "appended w w2"
        using w1 marshalText_appended [OF mt] by (rule appended_trans)
      show ?thesis
      proof (cases r2)
        case None
        with False Inr mt Cons.prems
        have "marshalAttrFields L x val flds (insert (fi_name fi) check) (WriteByte CHR 0x22 w2)
                = (r, check', w')"
          by (simp add: w1_def Let_def)
        from Cons.IH [OF this] have "appended (WriteByte CHR 0x22 w2) w'" .
        then have "appended w2 w'" by (rule appended_from_WriteByte)
        with w2 show ?thesis by (rule appended_trans)
      next
        case (Some err)
        with False Inr mt Cons.prems have "w' = w2" by (simp add: w1_def Let_def)
        with w2 show ?thesis by simp
      qed
    qed
  qed
qed

lemma marshalFixedAttrs_appended: "appended w (marshalFixedAttrs L x as check w)"
proof (induction as arbitrary: check w)
  case Nil
  then show ?case by simp
next
  case (Cons a as)
  show ?case
  proof (cases "attr_Name a \<in> check")
    case True
    then show ?thesis using Cons.IH by simp
  next
    case False
    have "appended w (WriteByte CHR 0x22 (WriteString (Escape L (attr_Value a))
               (WriteByte CHR 0x22 (WriteByte CHR ''=''
                 (WriteString (attrTag x (attr_Name a)) (WriteByte CHR '' '' w))))))"
      by (intro appended_steps) simp
    from appended_trans [OF this Cons.IH] False show ?thesis by simp
  qed
qed

lemma marshalAttributes_appended:
  "marshalAttributes L x w val ti = (r, w') \<Longrightarrow> appended w w'"
proof -
  assume a: "marshalAttributes L x w val ti = (r, w')"
  obtain r1 c1 w1 where m: "marshalAttrFields L x val (ti_fields ti) {} w = (r1, c1, w1)"
    by (cases "marshalAttrFields L x val (ti_fields ti) {} w")
  from marshalAttrFields_appended [OF m] have w1: "appended w w1" .
  show ?thesis
  proof (cases r1)
    case None
    with a m have "w' = marshalFixedAttrs L x (ti_attrs ti) c1 w1"
      by (simp add: marshalAttributes_def)
    with appended_trans [OF w1 marshalFixedAttrs_appended] show ?thesis by simp
  next
    case (Some err)
    with a m have "w' = w1" by (simp add: marshalAttributes_def)
    with w1 show ?thesis by simp
  qed
qed


lemma marshal_appended:
  "appended (writer e) (writer (snd (marshalValue L e val name)))"
  "appended (writer e) (writer (snd (marshalItems L e vs name)))"
  "appended (writer e) (writer (snd (marshalFields L e val flds)))"
proof (induction L e val name and L e vs name and L e val flds
    rule: marshalValue_marshalItems_marshalFields.induct)
  case (1 L e val name)
  show ?case
  proof (cases "\<not> IsValid val")
    case True
    then show ?thesis by (simp add: marshalValue.simps)
  next
    case valid: False
    show ?thesis
    proof (cases "KindV val = KPtr \<or> KindV val = KInterface")
      case True
      show ?thesis
      proof (cases "IsNil val")
        case True
        with valid \<open>KindV val = KPtr \<or> KindV val = KInterface\<close> show ?thesis
          by (simp add: marshalValue.simps)
      next
        case notnil: False
        show ?thesis
        proof (cases "Elem val")
          case (Inl p)
          with valid True notnil show ?thesis by (simp add: marshalValue.simps)
        next
          case (Inr v)
          from "1.IH"(1) [OF valid True notnil Inr]
          show ?thesis using valid True notnil Inr by (simp add: marshalValue.simps [of L e val])
        qed
      qed
    next
      case noptr: False
      show ?thesis
      proof (cases "(KindV val = KSlice \<or> KindV val = KArray) \<and> elemKind val \<noteq> KUint U8")
        case True
        from "1.IH"(2) [OF valid noptr True]
        show ?thesis using valid noptr True by (simp add: marshalValue.simps [of L e val])
      next
        case noseq: False
        show ?thesis
        proof (cases "getTypeInfo (xmlutil e) (the (TypeOf val))")
          case (Inl err)
          with valid noptr noseq show ?thesis by (auto simp add: marshalValue.simps [of L e val])
        next
          case (Inr b)
          obtain ti x' where b: "b = (ti, x')" by (cases b)
          define tag where "tag = elemTag x' (case name of None \<Rightarrow> ti_name ti | Some n \<Rightarrow> n)"
          define w1 where "w1 = WriteString tag (WriteByte CHR ''<'' (writer e))"
          obtain ra w2 where ma: "marshalAttributes L x' w1 val ti = (ra, w2)"
            by (cases "marshalAttributes L x' w1 val ti")
          have w1: "appended (writer e) w1"
            unfolding w1_def by (intro appended_steps) simp
          have w2: "appended (writer e) w2"
            using w1 marshalAttributes_appended [OF ma] by (rule appended_trans)
          show ?thesis
          proof (cases ra)
            case (Some err)
            with valid noptr noseq Inr b ma w2 show ?thesis
              by (auto simp add: marshalValue.simps [of L e val] tag_def w1_def Let_def)
          next
            case None
            define e2 where "e2 = \<lparr> xmlutil = x', writer = WriteByte CHR ''>'' w2 \<rparr>"
            have w3: "appended (writer e) (writer e2)"
              unfolding e2_def using w2 by (simp add: appended_then_WriteByte)
            show ?thesis
            proof (cases "KindV val = KStruct")
              case True
              from "1.IH"(3) [OF valid noptr noseq Inr b [symmetric] tag_def w1_def ma [symmetric] None True]
              have "appended (writer e2) (writer (snd (marshalFields L e2 val (ti_fields ti))))"
                by (simp add: e2_def)
              with w3 have w4: "appended (writer e) (writer (snd (marshalFields L e2 val (ti_fields ti))))"
                by (rule appended_trans)
              obtain rf e3 where mf: "marshalFields L e2 val (ti_fields ti) = (rf, e3)"
                by (cases "marshalFields L e2 val (ti_fields ti)")
              with w4 have "appended (writer e) (writer e3)" by simp
              then show ?thesis
                using valid noptr noseq Inr b ma None True mf
                by (cases rf)
                   (auto simp add: marshalValue.simps [of L e val] tag_def w1_def e2_def Let_def
                      appended_steps)
            next
              case False
              obtain rt w5 where mt: "marshalText L (WriteByte CHR ''>'' w2) val = (rt, w5)"
                by (cases "marshalText L (WriteByte CHR ''>'' w2) val")
              from marshalText_appended [OF mt] w3 have "appended (writer e) w5"
                by (simp add: e2_def appended_trans)
              then show ?thesis
                using valid noptr noseq Inr b ma None False mt
                by (cases rt)
                   (auto simp add: marshalValue.simps [of L e val] tag_def w1_def e2_def Let_def
                      appended_steps)
            qed
          qed
        qed
      qed
    qed
  qed
next
  case (2 L e name)
  then show ?case by simp
next
  case (3 L e v vs name)
  obtain r e' where mv: "marshalValue L e v name = (r, e')" by (cases "marshalValue L e v name")
  from "3.IH"(1) mv have a: "appended (writer e) (writer e')" by simp
  show ?case
  proof (cases r)
    case None
    from "3.IH"(2) [OF mv [symmetric] None]
    have "appended (writer e') (writer (snd (marshalItems L e' vs name)))" .
    with a have "appended (writer e) (writer (snd (marshalItems L e' vs name)))"
      by (rule appended_trans)
    with mv None show ?thesis by simp
  next
    case (Some err)
    with mv a show ?thesis by simp
  qed
next
  case (4 L e val)
  then show ?case by simp
next
  case (5 L e val fi fis)
  show ?case
  proof (cases "fi_flags fi AND fAttr \<noteq> 0")
    case True
    from "5.IH"(1) [OF True] True show ?thesis by simp
  next
    case noattr: False
    show ?thesis
    proof (cases "Field val (fi_index fi)")
      case (Inl p)
      with noattr show ?thesis by simp
    next
      case (Inr fval)
      show ?thesis
      proof (cases "fi_flags fi AND fOmitEmpty \<noteq> 0 \<and> isEmptyValue fval")
        case True
        from "5.IH"(2) [OF noattr Inr True] noattr Inr True show ?thesis by simp
      next
        case keep: False
        show ?thesis
        proof (cases "fi_flags fi AND fInterface \<noteq> 0")
          case iface: True
          show ?thesis
          proof (cases "Elem fval")
            case (Inl p)
            with noattr Inr keep iface show ?thesis by auto
          next
            case dyn: (Inr dyn)
            show ?thesis
            proof (cases "TypeOf dyn")
              case None
              with noattr Inr keep iface dyn show ?thesis by auto
            next
              case (Some t)
              show ?thesis
              proof (cases "getTypeInfo (xmlutil e) t")
                case (Inl err)
                with noattr Inr keep iface dyn Some show ?thesis by auto
              next
                case gti: (Inr b)
                obtain rti x' where b: "b = (rti, x')" by (cases b)
                obtain r e' where mv:
                  "marshalValue L (e\<lparr> xmlutil := x' \<rparr>) fval (Some (ti_name rti)) = (r, e')"
                  by (cases "marshalValue L (e\<lparr> xmlutil := x' \<rparr>) fval (Some (ti_name rti))")
                from "5.IH"(3) [OF noattr Inr keep iface dyn Some gti b [symmetric]] mv
                have a: "appended (writer e) (writer e')" by simp
                show ?thesis
                proof (cases r)
                  case None
                  from "5.IH"(4) [OF noattr Inr keep iface dyn Some gti b [symmetric] mv [symmetric] None]
                  have "appended (writer e') (writer (snd (marshalFields L e' val fis)))" .
                  with a have "appended (writer e) (writer (snd (marshalFields L e' val fis)))"
                    by (rule appended_trans)
                  with noattr Inr keep iface dyn Some gti b mv None show ?thesis by auto
                next
                  case (Some err)
                  with noattr Inr keep iface dyn \<open>TypeOf dyn = Some t\<close> gti b mv a
                  show ?thesis by auto
                qed
              qed
            qed
          qed
        next
          case noiface: False
          obtain r e' where mv: "marshalValue L e fval (Some (fi_name fi)) = (r, e')"
            by (cases "marshalValue L e fval (Some (fi_name fi))")
          from "5.IH"(5) [OF noattr Inr keep noiface] mv
          have a: "appended (writer e) (writer e')" by simp
          show ?thesis
          proof (cases r)
            case None
            from "5.IH"(6) [OF noattr Inr keep noiface mv [symmetric] None]
            have "appended (writer e') (writer (snd (marshalFields L e' val fis)))" .
            with a have "appended (writer e) (writer (snd (marshalFields L e' val fis)))"
              by (rule appended_trans)
            with noattr Inr keep noiface mv None show ?thesis by auto
          next
            case (Some err)
            with noattr Inr keep noiface mv a show ?thesis by auto
          qed
        qed
      qed
    qed
  qed
qed

lemma appended_produced:
  "pending (writer (snd (marshalValue L e (ValueOf v) None))) =
     pending (writer e) @ produced L e v \<and>
   sink (writer (snd (marshalValue L e (ValueOf v) None))) = sink (writer e) \<and>
   flushes (writer (snd (marshalValue L e (ValueOf v) None))) = flushes (writer e)"
  using marshal_appended(1) [of e L "ValueOf v" None]
  by (auto simp: appended_def produced_def)

text \<open>
  C10. Whenever Encode returns (with an error or with nil), it has called Flush exactly
  once, after \<^verbatim>\<open>marshalValue\<close>: nothing is pending, and the sink holds what it held, what
  was pending before, and all the markup \<^verbatim>\<open>marshalValue\<close> produced up to the point where
  it stopped. The error returned is the one \<^verbatim>\<open>marshalValue\<close> returned. The witness is an
  encode that fails with an unsupported-type error after it has put the unfinished
  \<^verbatim>\<open><T><A>x</A><M>\<close> into the sink.
\<close>

theorem C10_flush_once_also_on_error:
  assumes "\<not> panicked (fst (Encode L e v))"
  shows "flushes (writer (snd (Encode L e v))) = Suc (flushes (writer e)) \<and>
         pending (writer (snd (Encode L e v))) = [] \<and>
         sink (writer (snd (Encode L e v))) = sink (writer e) @ pending (writer e) @ produced L e v \<and>
         fst (Encode L e v) = fst (marshalValue L e (ValueOf v) None)"
proof -
  obtain r e' where mv: "marshalValue L e (ValueOf v) None = (r, e')"
    by (cases "marshalValue L e (ValueOf v) None")
  from appended_produced [of L e v] mv
  have p: "pending (writer e') = pending (writer e) @ produced L e v"
    and s: "sink (writer e') = sink (writer e)"
    and f: "flushes (writer e') = flushes (writer e)"
    by simp_all
  from assms mv have "Encode L e v = (r, e'\<lparr> writer := Flush (writer e') \<rparr>)"
    by (auto simp: Encode_def panicked_def split: option.splits)
  with p s f mv show ?thesis by (simp add: Flush_def)
qed

theorem C10_flush_once_also_on_error_witness:
  "\<not> panicked (fst (Encode asciiLib (NewEncoder NewXmlUtil [])
       (VStruct ''T'' [StructField ''A'' [] False [] TString,
                       StructField ''M'' [] False [] (TMap TString TString)]
          [VString ''x'', VMap TString TString []]))) \<and>
   fst (Encode asciiLib (NewEncoder NewXmlUtil [])
       (VStruct ''T'' [StructField ''A'' [] False [] TString,
                       StructField ''M'' [] False [] (TMap TString TString)]
          [VString ''x'', VMap TString TString []])) =
     Some (UnsupportedTypeError (TMap TString TString)) \<and>
   writer (snd (Encode asciiLib (NewEncoder NewXmlUtil [])
       (VStruct ''T'' [StructField ''A'' [] False [] TString,
                       StructField ''M'' [] False [] (TMap TString TString)]
          [VString ''x'', VMap TString TString []]))) =
     \<lparr> sink = ''<T><A>x</A><M>'', pending = [], flushes = 1 \<rparr>"
proof -
  let ?v = "VStruct ''T'' [StructField ''A'' [] False [] TString,
                       StructField ''M'' [] False [] (TMap TString TString)]
          [VString ''x'', VMap TString TString []]"
  let ?e = "NewEncoder NewXmlUtil []"
  have r: "fst (Encode asciiLib ?e ?v) = Some (UnsupportedTypeError (TMap TString TString))"
    by (simp add: registry_eval encoder_eval marshalValue.simps asciiLib_def escapeChar_def)
  then have np: "\<not> panicked (fst (Encode asciiLib ?e ?v))" by (simp add: panicked_def)
  have out: "produced asciiLib ?e ?v = ''<T><A>x</A><M>''"
    by (simp add: produced_def registry_eval encoder_eval marshalValue.simps asciiLib_def
        escapeChar_def)
  from C10_flush_once_also_on_error [OF np] out r np
  show ?thesis by (simp add: NewEncoder_def)
qed

section \<open>Decoder: the leaf case\<close>

lemma leafLoop_nested:
  "leafLoop fin (Suc depth) data (tokensOf n @ ts) = leafLoop fin (Suc depth) data ts"
  "leafLoop fin (Suc depth) data (tokensOfAll ns @ ts) = leafLoop fin (Suc depth) data ts"
  by (induction n and ns arbitrary: depth ts and depth ts rule: tokensOf_tokensOfAll.induct)
     simp_all

lemma leafLoop_own:
  "leafLoop fin 0 data (tokensOfAll ns @ ts) = leafLoop fin 0 (data @ ownText ns) ts"
proof (induction ns arbitrary: data)
  case Nil
  then show ?case by simp
next
  case (Cons n ns)
  show ?case
  proof (cases n)
    case (Child nm as cs)
    have "leafLoop fin 0 data (tokensOfAll (n # ns) @ ts) =
          leafLoop fin (Suc 0) data (tokensOfAll cs @ EndElement nm # tokensOfAll ns @ ts)"
      using Child by simp
    also have "\<dots> = leafLoop fin (Suc 0) data (EndElement nm # tokensOfAll ns @ ts)"
      by (rule leafLoop_nested)
    also have "\<dots> = leafLoop fin 0 (data @ ownText (n # ns)) ts"
      using Child Cons.IH by simp
    finally show ?thesis .
  qed (simp_all add: Cons.IH)
qed

lemma leafLoop_element:
  "leafLoop fin 0 [] (tokensOfAll content @ EndElement nm # rest) = Inr (ownText content, rest)"
  by (simp add: leafLoop_own)

lemma copyValue_leaf_no_panic:
  "isLeafSlot val \<Longrightarrow> copyValue L val src = Inl err \<Longrightarrow> \<not> is_panic err"
  by (cases val) (auto simp: isLeafSlot_def KindV_def split: sum.splits)

lemma unmarshalAt_leaf:
  assumes "isLeafSlot val"
    and "toks d = tokensOfAll content @ EndElement nm # rest"
  shows "unmarshalAt (Suc k) L d val st =
           Some (None,
                 (case copyValue L val (ownText content) of Inl err \<Rightarrow> val | Inr v \<Rightarrow> v),
                 d\<lparr> toks := rest \<rparr>)"
proof -
  have leaf: "unmarshalAt (Suc k) L d val st =
      (case leafLoop (final d) 0 [] (toks d) of
         Inl err \<Rightarrow> Some (Some err, val, d\<lparr> toks := [] \<rparr>)
       | Inr (data, ts) \<Rightarrow>
           (case copyValue L val data of
              Inl err \<Rightarrow> Some (if is_panic err then Some err else None, val, d\<lparr> toks := ts \<rparr>)
            | Inr v \<Rightarrow> Some (None, v, d\<lparr> toks := ts \<rparr>)))"
    using assms(1) by (cases val; hypsubst) (simp_all add: isLeafSlot_def KindV_def)
  show ?thesis
    using copyValue_leaf_no_panic [OF assms(1), of L "ownText content"]
    by (simp add: leaf assms(2) leafLoop_element split: sum.splits)
qed

text \<open>
  The default case of the kind switch. For a destination of any kind but Struct, Slice,
  Interface and Ptr, and an element whose content is any list of nodes, \<^verbatim>\<open>unmarshal\<close>
  returns nil, leaves the parser behind the element's end tag, and the destination holds
  what \<^verbatim>\<open>copyValue\<close> makes of the character data at depth zero (or what it held, when
  \<^verbatim>\<open>copyValue\<close> fails); the text and the tags of nested elements only move the depth. In
  the example the integer 42 is read from \<^verbatim>\<open>4<b>9</b>2\<close>.
\<close>

theorem leaf_text_at_depth_zero:
  assumes "isLeafSlot val"
    and "toks d = tokensOfAll content @ EndElement nm # rest"
  shows "unmarshal (Suc k) L d val (Some st) =
           Some (None,
                 (case copyValue L val (ownText content) of Inl err \<Rightarrow> val | Inr v \<Rightarrow> v),
                 d\<lparr> toks := rest \<rparr>)"
  using unmarshalAt_leaf [OF assms] by (simp add: unmarshal_def)

theorem leaf_text_at_depth_zero_example:
  "isLeafSlot (VInt I0 0) \<and>
   unmarshal (Suc 0) asciiLib
     \<lparr> dec_xmlutil = NewXmlUtil,
        toks = [CharData ''4'',
                StartElement \<lparr>Space = [], Local = ''b''\<rparr> [], CharData ''9'',
                EndElement \<lparr>Space = [], Local = ''b''\<rparr>,
                CharData ''2'',
                EndElement \<lparr>Space = [], Local = ''n''\<rparr>],
        final = EOF \<rparr>
     (VInt I0 0) (Some (\<lparr>Space = [], Local = ''n''\<rparr>, [])) =
   Some (None, VInt I0 42, \<lparr> dec_xmlutil = NewXmlUtil, toks = [], final = EOF \<rparr>)"
proof -
  have leaf: "isLeafSlot (VInt I0 0)" by (simp add: isLeafSlot_def KindV_def)
  have doc: "toks \<lparr> dec_xmlutil = NewXmlUtil,
        toks = [CharData ''4'',
                StartElement \<lparr>Space = [], Local = ''b''\<rparr> [], CharData ''9'',
                EndElement \<lparr>Space = [], Local = ''b''\<rparr>,
                CharData ''2'',
                EndElement \<lparr>Space = [], Local = ''n''\<rparr>],
        final = EOF \<rparr> =
      tokensOfAll [Text ''4'', Child \<lparr>Space = [], Local = ''b''\<rparr> [] [Text ''9''], Text ''2'']
        @ EndElement \<lparr>Space = [], Local = ''n''\<rparr> # []"
    by simp
  from leaf_text_at_depth_zero [OF leaf doc, of 0 asciiLib "(\<lparr>Space = [], Local = ''n''\<rparr>, [])"] leaf
  show ?thesis by (simp add: asciiLib_eval)
qed

text \<open>
  C8. \<^verbatim>\<open>copyValue\<close> has a branch for a byte slice and one for a \<^verbatim>\<open>time.Time\<close>, but the
  kind switch of \<^verbatim>\<open>unmarshal\<close> sends the first to the slice case and the second to the
  struct case, so the text of their element is never coerced into them. With a field
  \<^verbatim>\<open>B []byte\<close>, \<^verbatim>\<open><T><B>hi</B></T>\<close> decodes to the one byte 0: a byte is appended and
  \<^verbatim>\<open>hi\<close> is parsed as its decimal value, the parse error being dropped. With a field \<^verbatim>\<open>When time.Time\<close>, \<^verbatim>\<open><T><When>2020-01-02T03:04:05Z</When></T>\<close>
  leaves \<^verbatim>\<open>When\<close> at the zero time whatever the library parses: the text is skipped as
  the content of a struct without fields. Both calls return nil and read the whole
  document. The same text in an attribute does reach \<^verbatim>\<open>copyValue\<close>:
  \<^verbatim>\<open><T b="hi"></T>\<close> sets \<^verbatim>\<open>B\<close> to the bytes 104, 105.
\<close>

theorem C8_byte_slice_and_time_are_not_leaves:
  "map_option (\<lambda>(err, v, d). (err, v, toks d))
     (Decode (k + 7) asciiLib
        (NewDecoder NewXmlUtil
           [StartElement \<lparr>Space = [], Local = ''T''\<rparr> [],
            StartElement \<lparr>Space = [], Local = ''B''\<rparr> [],
            CharData ''hi'',
            EndElement \<lparr>Space = [], Local = ''B''\<rparr>,
            EndElement \<lparr>Space = [], Local = ''T''\<rparr>] EOF)
        (VPtr (TStruct ''T'' [StructField ''B'' [] False [] (TSlice (TUint U8))])
           (Some (VStruct ''T'' [StructField ''B'' [] False [] (TSlice (TUint U8))]
                    [VSlice (TUint U8) [] 0]))))
   = Some (None,
           VPtr (TStruct ''T'' [StructField ''B'' [] False [] (TSlice (TUint U8))])
             (Some (VStruct ''T'' [StructField ''B'' [] False [] (TSlice (TUint U8))]
                      [VSlice (TUint U8) [VUint U8 0, VUint U8 0, VUint U8 0, VUint U8 0] 1])),
           []) \<and>
   map_option (\<lambda>(err, v, d). (err, v, toks d))
     (Decode (k + 7) L
        (NewDecoder NewXmlUtil
           [StartElement \<lparr>Space = [], Local = ''T''\<rparr> [],
            StartElement \<lparr>Space = [], Local = ''When''\<rparr> [],
            CharData ''2020-01-02T03:04:05Z'',
            EndElement \<lparr>Space = [], Local = ''When''\<rparr>,
            EndElement \<lparr>Space = [], Local = ''T''\<rparr>] EOF)
        (VPtr (TStruct ''T'' [StructField ''When'' [] False [] TTime])
           (Some (VStruct ''T'' [StructField ''When'' [] False [] TTime] [VTime 0]))))
   = Some (None,
           VPtr (TStruct ''T'' [StructField ''When'' [] False [] TTime])
             (Some (VStruct ''T'' [StructField ''When'' [] False [] TTime] [VTime 0])),
           []) \<and>
   map_option (\<lambda>(err, v, d). (err, v, toks d))
     (Decode (k + 7) asciiLib
        (NewDecoder NewXmlUtil
           [StartElement \<lparr>Space = [], Local = ''T''\<rparr>
              [\<lparr>attr_Name = \<lparr>Space = [], Local = ''b''\<rparr>, attr_Value = ''hi''\<rparr>],
            EndElement \<lparr>Space = [], Local = ''T''\<rparr>] EOF)
        (VPtr (TStruct ''T'' [StructField ''B'' [] False ''b,attr'' (TSlice (TUint U8))])
           (Some (VStruct ''T'' [StructField ''B'' [] False ''b,attr'' (TSlice (TUint U8))]
                    [VSlice (TUint U8) [] 0]))))
   = Some (None,
           VPtr (TStruct ''T'' [StructField ''B'' [] False ''b,attr'' (TSlice (TUint U8))])
             (Some (VStruct ''T'' [StructField ''B'' [] False ''b,attr'' (TSlice (TUint U8))]
                      [VSlice (TUint U8) [VUint U8 104, VUint U8 105] 2])),
           [])"
proof -
  have k: "k + 7 = Suc (Suc (Suc (Suc (Suc (Suc (Suc k))))))" by simp
  show ?thesis
    unfolding k by (simp add: registry_eval decoder_eval asciiLib_eval) (simp add: eval_nat_numeral)
qed

section \<open>Attribute fields and element fields\<close>

lemma findAttrField_filter:
  "findAttrField (filter isAttribute flds) nm = findAttrField flds nm"
  by (induction flds) (simp_all add: isAttribute_def)

lemma findElemField_filter:
  "findElemField (filter (\<lambda>fi. \<not> isAttribute fi) flds) nm = findElemField flds nm"
  by (induction flds) (simp_all add: isAttribute_def)

lemma findAttrField_isAttribute:
  "findAttrField flds nm = Some fi \<Longrightarrow> isAttribute fi"
  by (induction flds) (simp_all add: isAttribute_def split: if_splits)

lemma findElemField_not_isAttribute:
  "findElemField flds nm = Some fi \<Longrightarrow> \<not> isAttribute fi"
  by (induction flds) (simp_all add: isAttribute_def split: if_splits)

lemma marshalAttrFields_filter:
  "marshalAttrFields L x val (filter isAttribute flds) check w =
   marshalAttrFields L x val flds check w"
  by (induction flds arbitrary: check w)
     (simp_all add: isAttribute_def Let_def split: sum.splits prod.splits option.splits)

lemma marshalFields_filter:
  "marshalFields L e val (filter (\<lambda>fi. \<not> isAttribute fi) flds) = marshalFields L e val flds"
  by (induction flds arbitrary: e)
     (simp_all add: isAttribute_def split: sum.splits prod.splits option.splits)

lemma unmarshalAttrs_filter:
  "unmarshalAttrs L (filter isAttribute flds) val as = unmarshalAttrs L flds val as"
  by (induction as arbitrary: val)
     (simp_all add: findAttrField_filter split: sum.splits prod.splits option.splits)

lemma fieldsLoop_filter:
  "fieldsLoop k L d (filter (\<lambda>fi. \<not> isAttribute fi) flds) val = fieldsLoop k L d flds val"
proof (induction k arbitrary: d val)
  case 0
  then show ?case by simp
next
  case (Suc k)
  show ?case
    by (simp add: findElemField_filter Suc.IH Let_def
        split: list.splits Token.splits option.splits sum.splits prod.splits)
qed

text \<open>
  C9. Encoding and decoding attributes gives the same result when every field without
  the attribute flag is removed from the descriptor, and encoding and decoding child
  elements gives the same result when every field with the flag is removed: no field is
  matched or emitted on the other side, whatever its name. The field found for an
  attribute carries the flag, the field found for a child element does not. In the
  witness an attribute field and an element field share the name \<^verbatim>\<open>x\<close>.
\<close>

theorem C9_attribute_and_element_fields_disjoint:
  "marshalAttrFields L x val (filter isAttribute flds) check w =
     marshalAttrFields L x val flds check w \<and>
   marshalFields L e val (filter (\<lambda>fi. \<not> isAttribute fi) flds) = marshalFields L e val flds \<and>
   unmarshalAttrs L (filter isAttribute flds) dst as = unmarshalAttrs L flds dst as \<and>
   fieldsLoop k L d (filter (\<lambda>fi. \<not> isAttribute fi) flds) dst = fieldsLoop k L d flds dst \<and>
   (case findAttrField flds nm of None \<Rightarrow> True | Some fi \<Rightarrow> isAttribute fi) \<and>
   (case findElemField flds nm of None \<Rightarrow> True | Some fi \<Rightarrow> \<not> isAttribute fi)"
  by (simp add: marshalAttrFields_filter marshalFields_filter unmarshalAttrs_filter
      fieldsLoop_filter findAttrField_isAttribute findElemField_not_isAttribute
      split: option.splits)

theorem C9_attribute_and_element_fields_disjoint_witness:
  "getFields NewXmlUtil
     (TStruct ''T'' [StructField ''X'' [] False ''x,attr'' TString,
                     StructField ''Y'' [] False ''x'' TString]) =
     [\<lparr> fi_index = 0, fi_name = \<lparr>Space = [], Local = ''x''\<rparr>, fi_flags = fAttr \<rparr>,
      \<lparr> fi_index = 1, fi_name = \<lparr>Space = [], Local = ''x''\<rparr>, fi_flags = 0 \<rparr>] \<and>
   unmarshalAttrs asciiLib
     [\<lparr> fi_index = 1, fi_name = \<lparr>Space = [], Local = ''x''\<rparr>, fi_flags = 0 \<rparr>,
      \<lparr> fi_index = 0, fi_name = \<lparr>Space = [], Local = ''x''\<rparr>, fi_flags = fAttr \<rparr>]
     (VStruct ''T'' [] [VString [], VString []])
     [\<lparr> attr_Name = \<lparr>Space = [], Local = ''x''\<rparr>, attr_Value = ''1'' \<rparr>] =
     (None, VStruct ''T'' [] [VString ''1'', VString []]) \<and>
   fieldsLoop 2 asciiLib
     \<lparr> dec_xmlutil = NewXmlUtil,
        toks = [StartElement \<lparr>Space = [], Local = ''x''\<rparr> [], CharData ''2'',
                EndElement \<lparr>Space = [], Local = ''x''\<rparr>,
                EndElement \<lparr>Space = [], Local = ''T''\<rparr>],
        final = EOF \<rparr>
     [\<lparr> fi_index = 0, fi_name = \<lparr>Space = [], Local = ''x''\<rparr>, fi_flags = fAttr \<rparr>,
      \<lparr> fi_index = 1, fi_name = \<lparr>Space = [], Local = ''x''\<rparr>, fi_flags = 0 \<rparr>]
     (VStruct ''T'' [] [VString [], VString []]) =
     Some (None, VStruct ''T'' [] [VString [], VString ''2''],
           \<lparr> dec_xmlutil = NewXmlUtil, toks = [], final = EOF \<rparr>)"
proof -
  let ?a = "\<lparr> fi_index = 0, fi_name = \<lparr>Space = [], Local = ''x''\<rparr>, fi_flags = fAttr \<rparr>"
  let ?b = "\<lparr> fi_index = 1, fi_name = \<lparr>Space = [], Local = ''x''\<rparr>, fi_flags = 0 \<rparr>"
  have fa: "filter isAttribute [?b, ?a] = [?a]"
    and fe: "filter (\<lambda>fi. \<not> isAttribute fi) [?a, ?b] = [?b]"
    by (simp_all add: isAttribute_def fAttr_def)
  have two: "(2::nat) = Suc (Suc 0)" by simp
  from C9_attribute_and_element_fields_disjoint
    [of asciiLib x val "[?b, ?a]" check w e "VStruct ''T'' [] [VString [], VString []]"
      "[\<lparr> attr_Name = \<lparr>Space = [], Local = ''x''\<rparr>, attr_Value = ''1'' \<rparr>]"]
  have "unmarshalAttrs asciiLib [?b, ?a] (VStruct ''T'' [] [VString [], VString []])
          [\<lparr> attr_Name = \<lparr>Space = [], Local = ''x''\<rparr>, attr_Value = ''1'' \<rparr>] =
        unmarshalAttrs asciiLib [?a] (VStruct ''T'' [] [VString [], VString []])
          [\<lparr> attr_Name = \<lparr>Space = [], Local = ''x''\<rparr>, attr_Value = ''1'' \<rparr>]"
    by (simp add: fa)
  then show ?thesis
    unfolding two by (simp add: registry_eval decoder_eval)
qed

section \<open>Decoder: the sequence case\<close>

lemma grow_length:
  "n \<le> length backing \<Longrightarrow>
     length (grow t backing n) = (if n = length backing then max 4 (2 * n) else length backing)"
  by (auto simp: grow_def)

lemma grow_slot: "n \<le> length backing \<Longrightarrow> n < length (grow t backing n)"
  by (auto simp: grow_def)

lemma grow_take: "n \<le> length backing \<Longrightarrow> take n (grow t backing n) = take n backing"
  by (auto simp: grow_def)

lemma grow_nth:
  "n \<le> length backing \<Longrightarrow>
     grow t backing n ! n = (if n = length backing then zero t else backing ! n)"
proof (cases "n = length backing")
  case True
  define m where "m = (if 2 * n < 4 then 4 else 2 * n) - n"
  have m: "0 < m" by (simp add: m_def)
  have "grow t backing n = backing @ replicate m (zero t)"
    using True by (simp add: grow_def m_def)
  with m True show ?thesis by (simp add: nth_append)
next
  case False
  assume "n \<le> length backing"
  with False show ?thesis by (simp add: grow_def)
qed

lemma grow_strings: "list_all isString backing \<Longrightarrow> list_all isString (grow TString backing n)"
  by (auto simp: grow_def list_all_iff dest: in_set_takeD)

lemma slice_success:
  assumes "n \<le> length backing"
    and "unmarshalAt k L d (grow t backing n ! n) st = Some (None, v, d')"
  shows "unmarshalAt (Suc k) L d (VSlice t backing n) st =
           Some (None, VSlice t ((grow t backing n)[n := v]) (Suc n), d')"
  using assms grow_slot [OF assms(1), of t] by (simp add: Let_def)

lemma slice_failure:
  assumes "n \<le> length backing"
    and "unmarshalAt k L d (grow t backing n ! n) st = Some (Some err, v, d')"
    and "\<not> is_panic err"
  shows "unmarshalAt (Suc k) L d (VSlice t backing n) st =
           Some (Some err, VSlice t ((grow t backing n)[n := v]) n, d')"
  using assms grow_slot [OF assms(1), of t] by (simp add: Let_def)

lemma items_appended:
  assumes "n \<le> length backing"
  shows "items (VSlice t ((grow t backing n)[n := v]) (Suc n)) = take n backing @ [v]"
proof -
  have "n < length (grow t backing n)" using assms by (rule grow_slot)
  then have "take (Suc n) ((grow t backing n)[n := v]) = take n (grow t backing n) @ [v]"
    by (simp add: take_Suc_conv_app_nth)
  then show ?thesis using assms by (simp add: grow_take)
qed

lemma items_rolled_back:
  assumes "n \<le> length backing"
  shows "items (VSlice t ((grow t backing n)[n := v]) n) = take n backing"
  using assms by (simp add: grow_take)

lemma unmarshalAt_string:
  assumes "isString val"
    and "toks d = tokensOfAll cs @ EndElement nm # rest"
  shows "unmarshalAt (Suc k) L d val st = Some (None, VString (ownText cs), d\<lparr> toks := rest \<rparr>)"
proof -
  from assms(1) obtain s where val: "val = VString s" by (cases val) simp_all
  have "isLeafSlot val" by (simp add: val isLeafSlot_def KindV_def)
  from unmarshalAt_leaf [OF this assms(2)] show ?thesis by (simp add: val)
qed

lemma stringSlice_step:
  assumes "stringSlice r ss"
    and "toks d = tokensOfAll cs @ EndElement nm # rest"
  shows "\<exists>r'. unmarshalAt (Suc (Suc k)) L d r st = Some (None, r', d\<lparr> toks := rest \<rparr>) \<and>
              stringSlice r' (ss @ [ownText cs])"
proof -
  from assms(1) obtain backing where r: "r = VSlice TString backing (length ss)"
    and strs: "list_all isString backing" and le: "length ss \<le> length backing"
    and held: "take (length ss) backing = map VString ss"
    by (auto simp: stringSlice_def)
  let ?b = "grow TString backing (length ss)"
  have slot: "length ss < length ?b" using le by (rule grow_slot)
  have "list_all isString ?b" using strs by (rule grow_strings)
  with slot have "isString (?b ! length ss)" by (simp add: list_all_length)
  from unmarshalAt_string [OF this assms(2)]
  have inner: "unmarshalAt (Suc k) L d (?b ! length ss) st =
      Some (None, VString (ownText cs), d\<lparr> toks := rest \<rparr>)" .
  let ?r' = "VSlice TString (?b[length ss := VString (ownText cs)]) (Suc (length ss))"
  from slice_success [OF le inner]
  have res: "unmarshalAt (Suc (Suc k)) L d r st = Some (None, ?r', d\<lparr> toks := rest \<rparr>)"
    by (simp add: r)
  have "take (Suc (length ss)) (?b[length ss := VString (ownText cs)]) =
          map VString (ss @ [ownText cs])"
    using items_appended [OF le, of TString "VString (ownText cs)"] held by simp
  moreover have "list_all isString (?b[length ss := VString (ownText cs)])"
    using \<open>list_all isString ?b\<close> by (auto simp: list_all_iff dest!: set_update_subset_insert [THEN subsetD])
  ultimately have "stringSlice ?r' (ss @ [ownText cs])"
    using slot by (simp add: stringSlice_def)
  with res show ?thesis by blast
qed


lemma findStart_child:
  "findStart fin (tokensOf (Child nm as cs) @ ts) =
     Inr ((nm, as), tokensOfAll cs @ EndElement nm # ts)"
  by simp

lemma findStart_skip:
  "topTexts [n] = [] \<Longrightarrow> findStart fin (tokensOf n @ ts) = findStart fin ts"
  by (cases n) simp_all

lemma topTexts_Cons: "topTexts (n # doc) = topTexts [n] @ topTexts doc"
  by (cases n) simp_all

lemma unmarshal_first:
  assumes "stringSlice r ss"
    and "toks d = tokensOfAll doc"
  shows "\<exists>e0 r1 doc1.
           unmarshal (Suc (Suc k)) L d r None = Some (e0, r1, d\<lparr> toks := tokensOfAll doc1 \<rparr>) \<and>
           stringSlice r1 (ss @ take 1 (topTexts doc)) \<and>
           topTexts doc1 = drop 1 (topTexts doc) \<and>
           e0 = (if topTexts doc = [] then Some (final d) else None) \<and>
           (topTexts doc = [] \<longrightarrow> doc1 = [])"
  using assms(2)
proof (induction doc arbitrary: d)
  case Nil
  then have "unmarshal (Suc (Suc k)) L d r None = Some (Some (final d), r, d\<lparr> toks := tokensOfAll [] \<rparr>)"
    by (simp add: unmarshal_def)
  with assms(1) show ?case by force
next
  case (Cons n doc)
  show ?case
  proof (cases "topTexts [n] = []")
    case True
    let ?d = "d\<lparr> toks := tokensOfAll doc \<rparr>"
    have same: "unmarshal (Suc (Suc k)) L d r None = unmarshal (Suc (Suc k)) L ?d r None"
      using Cons.prems findStart_skip [OF True, of "final d" "tokensOfAll doc"]
      by (simp add: unmarshal_def split: sum.splits prod.splits)
    have "toks ?d = tokensOfAll doc" by simp
    from Cons.IH [OF this] obtain e0 r1 doc1 where
      "unmarshal (Suc (Suc k)) L ?d r None = Some (e0, r1, ?d\<lparr> toks := tokensOfAll doc1 \<rparr>)"
      "stringSlice r1 (ss @ take 1 (topTexts doc))"
      "topTexts doc1 = drop 1 (topTexts doc)"
      "e0 = (if topTexts doc = [] then Some (final ?d) else None)"
      "topTexts doc = [] \<longrightarrow> doc1 = []"
      by blast
    with same True topTexts_Cons [of n doc] show ?thesis by force
  next
    case False
    then obtain nm as cs where n: "n = Child nm as cs" by (cases n) simp_all
    let ?d = "d\<lparr> toks := tokensOfAll cs @ EndElement nm # tokensOfAll doc \<rparr>"
    have un: "unmarshal (Suc (Suc k)) L d r None = unmarshalAt (Suc (Suc k)) L ?d r (nm, as)"
      using Cons.prems by (simp add: unmarshal_def n)
    have "toks ?d = tokensOfAll cs @ EndElement nm # tokensOfAll doc" by simp
    from stringSlice_step [OF assms(1) this, of k L "(nm, as)"] obtain r' where
      "unmarshalAt (Suc (Suc k)) L ?d r (nm, as) = Some (None, r', ?d\<lparr> toks := tokensOfAll doc \<rparr>)"
      "stringSlice r' (ss @ [ownText cs])"
      by blast
    with un n show ?thesis by force
  qed
qed

lemma decodeLoop_strings:
  assumes "stringSlice r ss"
    and "toks d = tokensOfAll doc"
    and "final d = EOF"
    and "length (topTexts doc) + 3 \<le> k"
  shows "\<exists>r'. decodeLoop k L d r = Some (EOF, r', d\<lparr> toks := [] \<rparr>) \<and>
              stringSlice r' (ss @ topTexts doc)"
  using assms
proof (induction k arbitrary: d r ss doc)
  case 0
  then show ?case by simp
next
  case (Suc k)
  from Suc.prems(4) obtain k2 where k: "k = Suc (Suc k2)"
    by (metis add_2_eq_Suc' add_Suc_right le_Suc_ex numeral_3_eq_3 Suc_le_mono add.commute)
  from unmarshal_first [OF Suc.prems(1) Suc.prems(2), of k2 L] obtain e0 r1 doc1 where
    first: "unmarshal k L d r None = Some (e0, r1, d\<lparr> toks := tokensOfAll doc1 \<rparr>)"
    and r1: "stringSlice r1 (ss @ take 1 (topTexts doc))"
    and doc1: "topTexts doc1 = drop 1 (topTexts doc)"
    and e0: "e0 = (if topTexts doc = [] then Some (final d) else None)"
    and last: "topTexts doc = [] \<longrightarrow> doc1 = []"
    unfolding k by blast
  show ?case
  proof (cases "topTexts doc = []")
    case True
    with first e0 last r1 Suc.prems(3) show ?thesis by simp
  next
    case False
    let ?d = "d\<lparr> toks := tokensOfAll doc1 \<rparr>"
    have "toks ?d = tokensOfAll doc1" and "final ?d = EOF" using Suc.prems(3) by simp_all
    moreover have "length (topTexts doc1) + 3 \<le> k" using doc1 False Suc.prems(4) by (cases "topTexts doc") simp_all
    ultimately obtain r' where
      "decodeLoop k L ?d r1 = Some (EOF, r', ?d\<lparr> toks := [] \<rparr>)"
      "stringSlice r' ((ss @ take 1 (topTexts doc)) @ topTexts doc1)"
      using Suc.IH [OF r1] by blast
    moreover have "(ss @ take 1 (topTexts doc)) @ topTexts doc1 = ss @ topTexts doc"
      by (simp add: doc1)
    ultimately show ?thesis using first e0 False by simp
  qed
qed

lemma stringSlice_items: "stringSlice r ss \<Longrightarrow> items r = map VString ss"
  by (auto simp: stringSlice_def)

lemma Decode_strings:
  assumes "list_all isString stale"
    and "length (topTexts doc) + 3 \<le> k"
  shows "\<exists>r dd. Decode k L (NewDecoder x (tokensOfAll doc) EOF)
                  (VPtr (TSlice TString) (Some (VSlice TString stale 0))) =
                Some (None, VPtr (TSlice TString) (Some r), dd) \<and>
              items r = map VString (topTexts doc) \<and> toks dd = []"
proof -
  let ?d = "NewDecoder x (tokensOfAll doc) EOF"
  let ?r0 = "VSlice TString stale 0"
  from assms(2) obtain k2 where k: "k = Suc (Suc k2)"
    by (metis add_2_eq_Suc' add_Suc_right le_Suc_ex numeral_3_eq_3 add.commute)
  have r0: "stringSlice ?r0 []" using assms(1) by (simp add: stringSlice_def)
  have td: "toks ?d = tokensOfAll doc" and fd: "final ?d = EOF" by (simp_all add: NewDecoder_def)
  from unmarshal_first [OF r0 td, of k2 L] obtain e0 r1 doc1 where
    first: "unmarshal k L ?d ?r0 None = Some (e0, r1, ?d\<lparr> toks := tokensOfAll doc1 \<rparr>)"
    and r1: "stringSlice r1 ([] @ take 1 (topTexts doc))"
    and doc1: "topTexts doc1 = drop 1 (topTexts doc)"
    and e0: "e0 = (if topTexts doc = [] then Some (final ?d) else None)"
    unfolding k by blast
  let ?d1 = "?d\<lparr> toks := tokensOfAll doc1 \<rparr>"
  have np: "\<not> (case e0 of None \<Rightarrow> False | Some e \<Rightarrow> is_panic e)"
    using e0 fd by simp
  have "toks ?d1 = tokensOfAll doc1" and "final ?d1 = EOF" by (simp_all add: NewDecoder_def)
  moreover have "length (topTexts doc1) + 3 \<le> k" using doc1 assms(2) by simp
  ultimately obtain r' where
    loop: "decodeLoop k L ?d1 r1 = Some (EOF, r', ?d1\<lparr> toks := [] \<rparr>)"
    and r': "stringSlice r' (([] @ take 1 (topTexts doc)) @ topTexts doc1)"
    using decodeLoop_strings [OF r1] by blast
  have "([] @ take 1 (topTexts doc)) @ topTexts doc1 = topTexts doc" by (simp add: doc1)
  with r' have "items r' = map VString (topTexts doc)" by (simp add: stringSlice_items)
  moreover have "Decode k L ?d (VPtr (TSlice TString) (Some ?r0)) =
      Some (None, VPtr (TSlice TString) (Some r'), ?d1\<lparr> toks := [] \<rparr>)"
    using first np loop by (simp add: Decode_def DecodeElement_def KindV_def)
  ultimately show ?thesis by simp
qed

text \<open>
  The slice case, for every element type. Take a slice with length \<open>n\<close> within its
  capacity and whatever the decoding of the new slot returns. When it succeeds, the slice
  case returns the same result with the old elements followed by the decoded one, and a
  capacity of \<open>max 4 (2 * n)\<close> if the slice was full, the old capacity otherwise; when it
  fails with an error, the slice case returns that error and the old elements at the old
  length. The slot decoded into is the zero
  value when the slice was full and the stale element of the backing array otherwise.
  Decoding a document into an empty slice of strings, with any capacity and any strings
  left in its backing array, returns nil with the texts of the top-level elements in
  document order, given fuel for three calls more than there are elements.
\<close>

theorem sequence_slot_laws:
  assumes "n \<le> length backing"
  shows
    "(unmarshalAt k L d (grow t backing n ! n) st = Some (None, v, d') \<longrightarrow>
        (\<exists>r. unmarshalAt (Suc k) L d (VSlice t backing n) st = Some (None, r, d') \<and>
             items r = items (VSlice t backing n) @ [v] \<and>
             Cap r = (if n = length backing then max 4 (2 * n) else length backing))) \<and>
     (unmarshalAt k L d (grow t backing n ! n) st = Some (Some err, v', d'') \<and> \<not> is_panic err \<longrightarrow>
        (\<exists>r. unmarshalAt (Suc k) L d (VSlice t backing n) st = Some (Some err, r, d'') \<and>
             items r = items (VSlice t backing n) \<and> Len r = n)) \<and>
     grow t backing n ! n = (if n = length backing then zero t else backing ! n) \<and>
     (list_all isString stale \<and> length (topTexts doc) + 3 \<le> j \<longrightarrow>
        (\<exists>r dd. Decode j L (NewDecoder x (tokensOfAll doc) EOF)
                  (VPtr (TSlice TString) (Some (VSlice TString stale 0))) =
                  Some (None, VPtr (TSlice TString) (Some r), dd) \<and>
                items r = map VString (topTexts doc) \<and> toks dd = []))"
proof (intro conjI impI)
  assume inner: "unmarshalAt k L d (grow t backing n ! n) st = Some (None, v, d')"
  let ?r = "VSlice t ((grow t backing n)[n := v]) (Suc n)"
  have "unmarshalAt (Suc k) L d (VSlice t backing n) st = Some (None, ?r, d')"
    using assms inner by (rule slice_success)
  moreover have "items ?r = items (VSlice t backing n) @ [v]"
    using items_appended [OF assms] by simp
  moreover have "Cap ?r = (if n = length backing then max 4 (2 * n) else length backing)"
    using grow_length [OF assms, of t] by simp
  ultimately show "\<exists>r. unmarshalAt (Suc k) L d (VSlice t backing n) st = Some (None, r, d') \<and>
      items r = items (VSlice t backing n) @ [v] \<and>
      Cap r = (if n = length backing then max 4 (2 * n) else length backing)"
    by blast
next
  assume "unmarshalAt k L d (grow t backing n ! n) st = Some (Some err, v', d'') \<and> \<not> is_panic err"
  then have inner: "unmarshalAt k L d (grow t backing n ! n) st = Some (Some err, v', d'')"
    and np: "\<not> is_panic err" by simp_all
  let ?r = "VSlice t ((grow t backing n)[n := v']) n"
  have "unmarshalAt (Suc k) L d (VSlice t backing n) st = Some (Some err, ?r, d'')"
    using assms inner np by (rule slice_failure)
  moreover have "items ?r = items (VSlice t backing n)"
    using items_rolled_back [OF assms] by simp
  moreover have "Len ?r = n" by simp
  ultimately show "\<exists>r. unmarshalAt (Suc k) L d (VSlice t backing n) st = Some (Some err, r, d'') \<and>
      items r = items (VSlice t backing n) \<and> Len r = n"
    by blast
next
  show "grow t backing n ! n = (if n = length backing then zero t else backing ! n)"
    using assms by (rule grow_nth)
next
  assume "list_all isString stale \<and> length (topTexts doc) + 3 \<le> j"
  then show "\<exists>r dd. Decode j L (NewDecoder x (tokensOfAll doc) EOF)
                  (VPtr (TSlice TString) (Some (VSlice TString stale 0))) =
                  Some (None, VPtr (TSlice TString) (Some r), dd) \<and>
                items r = map VString (topTexts doc) \<and> toks dd = []"
    using Decode_strings [of stale doc j L x] by simp
qed

theorem sequence_slot_laws_example:
  "(0::nat) \<le> length ([] :: gval list) \<and>
   unmarshalAt 1 asciiLib
     \<lparr> dec_xmlutil = NewXmlUtil,
        toks = [CharData ''x'', EndElement \<lparr>Space = [], Local = ''a''\<rparr>], final = EOF \<rparr>
     (grow TString [] 0 ! 0) (\<lparr>Space = [], Local = ''a''\<rparr>, []) =
     Some (None, VString ''x'', \<lparr> dec_xmlutil = NewXmlUtil, toks = [], final = EOF \<rparr>) \<and>
   (\<exists>r. unmarshalAt (Suc 1) asciiLib
          \<lparr> dec_xmlutil = NewXmlUtil,
             toks = [CharData ''x'', EndElement \<lparr>Space = [], Local = ''a''\<rparr>], final = EOF \<rparr>
          (VSlice TString [] 0) (\<lparr>Space = [], Local = ''a''\<rparr>, []) =
          Some (None, r, \<lparr> dec_xmlutil = NewXmlUtil, toks = [], final = EOF \<rparr>) \<and>
        items r = [VString ''x''] \<and> Cap r = 4) \<and>
   unmarshalAt 2 asciiLib
     \<lparr> dec_xmlutil = NewXmlUtil,
        toks = [EndElement \<lparr>Space = [], Local = ''T''\<rparr>], final = EOF \<rparr>
     (grow (TStruct ''T'' [StructField ''A'' [] False ''a,attr'' (TInt I0)]) [] 0 ! 0)
     (\<lparr>Space = [], Local = ''T''\<rparr>,
      [\<lparr> attr_Name = \<lparr>Space = [], Local = ''a''\<rparr>, attr_Value = ''x'' \<rparr>]) =
     Some (Some (LibError ''strconv.ParseInt: invalid syntax''),
           VStruct ''T'' [StructField ''A'' [] False ''a,attr'' (TInt I0)] [VInt I0 0],
           \<lparr> dec_xmlutil = NewXmlUtil\<lparr> typeMap :=
                [(TStruct ''T'' [StructField ''A'' [] False ''a,attr'' (TInt I0)],
                  \<lparr> ti_name = \<lparr>Space = [], Local = ''T''\<rparr>, ti_attrs = [],
                     ti_fields = [\<lparr> fi_index = 0, fi_name = \<lparr>Space = [], Local = ''a''\<rparr>,
                                     fi_flags = 2 \<rparr>] \<rparr>)] \<rparr>,
              toks = [EndElement \<lparr>Space = [], Local = ''T''\<rparr>], final = EOF \<rparr>) \<and>
   (\<exists>r. unmarshalAt (Suc 2) asciiLib
          \<lparr> dec_xmlutil = NewXmlUtil,
             toks = [EndElement \<lparr>Space = [], Local = ''T''\<rparr>], final = EOF \<rparr>
          (VSlice (TStruct ''T'' [StructField ''A'' [] False ''a,attr'' (TInt I0)]) [] 0)
          (\<lparr>Space = [], Local = ''T''\<rparr>,
           [\<lparr> attr_Name = \<lparr>Space = [], Local = ''a''\<rparr>, attr_Value = ''x'' \<rparr>]) =
          Some (Some (LibError ''strconv.ParseInt: invalid syntax''), r,
           \<lparr> dec_xmlutil = NewXmlUtil\<lparr> typeMap :=
                [(TStruct ''T'' [StructField ''A'' [] False ''a,attr'' (TInt I0)],
                  \<lparr> ti_name = \<lparr>Space = [], Local = ''T''\<rparr>, ti_attrs = [],
                     ti_fields = [\<lparr> fi_index = 0, fi_name = \<lparr>Space = [], Local = ''a''\<rparr>,
                                     fi_flags = 2 \<rparr>] \<rparr>)] \<rparr>,
              toks = [EndElement \<lparr>Space = [], Local = ''T''\<rparr>], final = EOF \<rparr>) \<and>
        items r = [] \<and> Len r = 0) \<and>
   list_all isString [VString ''old''] \<and>
   (\<exists>r dd. Decode 6 asciiLib
        (NewDecoder NewXmlUtil
           (tokensOfAll [Child \<lparr>Space = [], Local = ''a''\<rparr> [] [Text ''1''], Text '' '',
                         Child \<lparr>Space = [], Local = ''a''\<rparr> [] [Text ''2''],
                         Child \<lparr>Space = [], Local = ''a''\<rparr> [] [Text ''3'']]) EOF)
        (VPtr (TSlice TString) (Some (VSlice TString [VString ''old''] 0))) =
        Some (None, VPtr (TSlice TString) (Some r), dd) \<and>
      items r = [VString ''1'', VString ''2'', VString ''3''] \<and> toks dd = [])"
proof -
  let ?d1 = "\<lparr> dec_xmlutil = NewXmlUtil,
        toks = [CharData ''x'', EndElement \<lparr>Space = [], Local = ''a''\<rparr>], final = EOF \<rparr>"
  let ?st1 = "(\<lparr>Space = [], Local = ''a''\<rparr>, []) :: StartElem"
  let ?T = "TStruct ''T'' [StructField ''A'' [] False ''a,attr'' (TInt I0)]"
  let ?d2 = "\<lparr> dec_xmlutil = NewXmlUtil,
        toks = [EndElement \<lparr>Space = [], Local = ''T''\<rparr>], final = EOF \<rparr>"
  let ?st2 = "(\<lparr>Space = [], Local = ''T''\<rparr>,
      [\<lparr> attr_Name = \<lparr>Space = [], Local = ''a''\<rparr>, attr_Value = ''x'' \<rparr>]) :: StartElem"
  let ?d2' = "\<lparr> dec_xmlutil = NewXmlUtil\<lparr> typeMap :=
                [(?T,
                  \<lparr> ti_name = \<lparr>Space = [], Local = ''T''\<rparr>, ti_attrs = [],
                     ti_fields = [\<lparr> fi_index = 0, fi_name = \<lparr>Space = [], Local = ''a''\<rparr>,
                                     fi_flags = 2 \<rparr>] \<rparr>)] \<rparr>,
              toks = [EndElement \<lparr>Space = [], Local = ''T''\<rparr>], final = EOF \<rparr>"
  let ?doc = "[Child \<lparr>Space = [], Local = ''a''\<rparr> [] [Text ''1''], Text '' '',
                         Child \<lparr>Space = [], Local = ''a''\<rparr> [] [Text ''2''],
                         Child \<lparr>Space = [], Local = ''a''\<rparr> [] [Text ''3'']]"
  have le: "(0::nat) \<le> length ([] :: gval list)" by simp
  have one: "(1::nat) = Suc 0" and two: "(2::nat) = Suc (Suc 0)" by simp_all
  have ok: "unmarshalAt 1 asciiLib ?d1 (grow TString [] 0 ! 0) ?st1 =
      Some (None, VString ''x'', \<lparr> dec_xmlutil = NewXmlUtil, toks = [], final = EOF \<rparr>)"
    unfolding one by (simp add: grow_def)
  have bad: "unmarshalAt 2 asciiLib ?d2 (grow ?T [] 0 ! 0) ?st2 =
      Some (Some (LibError ''strconv.ParseInt: invalid syntax''),
            VStruct ''T'' [StructField ''A'' [] False ''a,attr'' (TInt I0)] [VInt I0 0], ?d2')"
    unfolding two by (simp add: registry_eval decoder_eval asciiLib_eval)
  have np: "\<not> is_panic (LibError ''strconv.ParseInt: invalid syntax'')" by simp
  have strs: "list_all isString [VString ''old'']" by simp
  have fuel: "length (topTexts ?doc) + 3 \<le> (6::nat)" by simp
  note a = sequence_slot_laws [OF le, of 1 asciiLib ?d1 TString ?st1 "VString ''x''"
      "\<lparr> dec_xmlutil = NewXmlUtil, toks = [], final = EOF \<rparr>" err v' d''
      "[VString ''old'']" ?doc 6 NewXmlUtil]
  note b = sequence_slot_laws [OF le, of 2 asciiLib ?d2 ?T ?st2 v d'
      "LibError ''strconv.ParseInt: invalid syntax''"
      "VStruct ''T'' [StructField ''A'' [] False ''a,attr'' (TInt I0)] [VInt I0 0]" ?d2']
  from a ok have c1: "\<exists>r. unmarshalAt (Suc 1) asciiLib ?d1 (VSlice TString [] 0) ?st1 =
          Some (None, r, \<lparr> dec_xmlutil = NewXmlUtil, toks = [], final = EOF \<rparr>) \<and>
        items r = [VString ''x''] \<and> Cap r = 4"
    by simp
  from b bad np have c2: "\<exists>r. unmarshalAt (Suc 2) asciiLib ?d2 (VSlice ?T [] 0) ?st2 =
          Some (Some (LibError ''strconv.ParseInt: invalid syntax''), r, ?d2') \<and>
        items r = [] \<and> Len r = 0"
    by simp
  from a strs fuel have c3: "\<exists>r dd. Decode 6 asciiLib (NewDecoder NewXmlUtil (tokensOfAll ?doc) EOF)
        (VPtr (TSlice TString) (Some (VSlice TString [VString ''old''] 0))) =
        Some (None, VPtr (TSlice TString) (Some r), dd) \<and>
      items r = [VString ''1'', VString ''2'', VString ''3''] \<and> toks dd = []"
    by simp
  from le ok c1 bad c2 strs c3 show ?thesis by blast
qed

text \<open>
  C7. One top-level element can fill two slots. The document \<^verbatim>\<open><a><b>x</b></a>\<close> is
  decoded into an empty slice of \<^verbatim>\<open>interface{}\<close> with no type registered. The slice case
  appends a slot for \<^verbatim>\<open><a>\<close>; the interface case finds no type named \<^verbatim>\<open>a\<close> and returns
  nil without reading the content of the element (the defect of C3), so the loop of
  \<^verbatim>\<open>DecodeElement\<close> takes the nested \<^verbatim>\<open><b>\<close> for the next sibling and appends a second
  slot. Decode returns nil at the end of the stream with a slice of length 2 (capacity 4)
  for a document with one top-level element, whatever fuel above 2 the run is given.
  Decoded into a slice of strings, the same document gives length 1: the leaf case reads
  the element to its end tag.
\<close>

theorem C7_one_element_fills_two_slots:
  "map_option (\<lambda>(err, v, d). (err, v, toks d))
     (Decode (k + 3) L
        (NewDecoder NewXmlUtil
           [StartElement \<lparr>Space = [], Local = ''a''\<rparr> [],
            StartElement \<lparr>Space = [], Local = ''b''\<rparr> [],
            CharData ''x'',
            EndElement \<lparr>Space = [], Local = ''b''\<rparr>,
            EndElement \<lparr>Space = [], Local = ''a''\<rparr>] EOF)
        (VPtr (TSlice (TInterface [])) (Some (VSlice (TInterface []) [] 0))))
   = Some (None,
           VPtr (TSlice (TInterface []))
             (Some (VSlice (TInterface [])
                      [VIface [] None, VIface [] None, VIface [] None, VIface [] None] 2)),
           []) \<and>
   map_option (\<lambda>(err, v, d). (err, v, toks d))
     (Decode (k + 3) L
        (NewDecoder NewXmlUtil
           [StartElement \<lparr>Space = [], Local = ''a''\<rparr> [],
            StartElement \<lparr>Space = [], Local = ''b''\<rparr> [],
            CharData ''x'',
            EndElement \<lparr>Space = [], Local = ''b''\<rparr>,
            EndElement \<lparr>Space = [], Local = ''a''\<rparr>] EOF)
        (VPtr (TSlice TString) (Some (VSlice TString [] 0))))
   = Some (None,
           VPtr (TSlice TString)
             (Some (VSlice TString [VString [], VString [], VString [], VString []] 1)),
           [])"
proof -
  have k: "k + 3 = Suc (Suc (Suc k))" by simp
  show ?thesis
    unfolding k by (simp add: registry_eval decoder_eval) (simp add: eval_nat_numeral)
qed

end
